theory Spec2Isabelle
  imports Main "HOL-Library.Log_Nat" "HOL-Library.Char_ord" "HOL-Library.List_Lexorder"
begin

section \<open>JavaScript numbers\<close>

text \<open>
  The handlers of \<^verbatim>\<open>routes/analytics.js\<close> compute with JavaScript Numbers: IEEE 754
  binary64 values. A finite value is kept as the rational it denotes; the two zeros, NaN and
  the infinities are separate constructors. \<open>Fin 0\<close> is \<open>+0\<close>.
\<close>

datatype jsnum = Fin rat | NegZero | NaN | PInf | NInf

definition pow2 :: "int \<Rightarrow> rat" where
  "pow2 e = (if 0 \<le> e then 2 ^ nat e else 1 / 2 ^ nat (- e))"

text \<open>\<open>expo q\<close> is the binary exponent of a non-zero rational: \<open>2^e \<le> |q| < 2^(e+1)\<close>.\<close>

definition expo :: "rat \<Rightarrow> int" where
  "expo q = (if 1 \<le> \<bar>q\<bar> then bitlen \<lfloor>\<bar>q\<bar>\<rfloor> - 1 else - bitlen (\<lceil>1 / \<bar>q\<bar>\<rceil> - 1))"

text \<open>Round to the nearest integer, ties to the even one.\<close>

definition rne :: "rat \<Rightarrow> int" where
  "rne r = (let f = \<lfloor>r\<rfloor>; d = r - of_int f
            in if d < 1 / 2 then f else if 1 / 2 < d then f + 1
               else if even f then f else f + 1)"

text \<open>
  \<open>fl q\<close> is the Number nearest to the rational \<open>q\<close> (round to nearest, ties to even):
  53 significant bits, exponents from \<open>-1022\<close> (below that the spacing stays \<open>2^-1074\<close>),
  overflow to an infinity from \<open>2^1024\<close> on, and a zero that keeps the sign of \<open>q\<close>.
\<close>

definition fl :: "rat \<Rightarrow> jsnum" where
  "fl q = (if q = 0 then Fin 0
           else let e = max (expo q) (- 1022);
                    u = pow2 (e - 52);
                    r = of_int (rne (q / u)) * u
                in if pow2 1024 \<le> \<bar>r\<bar> then (if q < 0 then NInf else PInf)
                   else if r = 0 then (if q < 0 then NegZero else Fin 0)
                   else Fin r)"

fun is_neg :: "jsnum \<Rightarrow> bool" where
  "is_neg (Fin r) = (r < 0)"
| "is_neg NegZero = True"
| "is_neg NInf = True"
| "is_neg _ = False"

fun is_zero :: "jsnum \<Rightarrow> bool" where
  "is_zero (Fin r) = (r = 0)"
| "is_zero NegZero = True"
| "is_zero _ = False"

fun is_inf :: "jsnum \<Rightarrow> bool" where
  "is_inf PInf = True"
| "is_inf NInf = True"
| "is_inf _ = False"

text \<open>The rational a finite Number denotes (both zeros denote 0).\<close>

fun num_val :: "jsnum \<Rightarrow> rat option" where
  "num_val (Fin r) = Some r"
| "num_val NegZero = Some 0"
| "num_val _ = None"

definition signed_zero :: "bool \<Rightarrow> jsnum" where
  "signed_zero neg = (if neg then NegZero else Fin 0)"

definition signed_inf :: "bool \<Rightarrow> jsnum" where
  "signed_inf neg = (if neg then NInf else PInf)"

fun js_neg :: "jsnum \<Rightarrow> jsnum" where
  "js_neg (Fin r) = (if r = 0 then NegZero else Fin (- r))"
| "js_neg NegZero = Fin 0"
| "js_neg NaN = NaN"
| "js_neg PInf = NInf"
| "js_neg NInf = PInf"

text \<open>\<open>x + y\<close> (Number::add).\<close>

fun js_add :: "jsnum \<Rightarrow> jsnum \<Rightarrow> jsnum" where
  "js_add NaN _ = NaN"
| "js_add _ NaN = NaN"
| "js_add PInf NInf = NaN"
| "js_add NInf PInf = NaN"
| "js_add PInf _ = PInf"
| "js_add _ PInf = PInf"
| "js_add NInf _ = NInf"
| "js_add _ NInf = NInf"
| "js_add NegZero y = y"
| "js_add x NegZero = x"
| "js_add (Fin a) (Fin b) = (if a + b = 0 then Fin 0 else fl (a + b))"

text \<open>\<open>x - y\<close> is \<open>x + (-y)\<close> (Number::subtract).\<close>

definition js_sub :: "jsnum \<Rightarrow> jsnum \<Rightarrow> jsnum" where
  "js_sub x y = js_add x (js_neg y)"

text \<open>\<open>x * y\<close> (Number::multiply): the sign of a zero or infinite result is the exclusive or
  of the operands' signs.\<close>

definition js_mul :: "jsnum \<Rightarrow> jsnum \<Rightarrow> jsnum" where
  "js_mul x y =
     (if x = NaN \<or> y = NaN then NaN
      else if (is_inf x \<and> is_zero y) \<or> (is_zero x \<and> is_inf y) then NaN
      else if is_inf x \<or> is_inf y then signed_inf (is_neg x \<noteq> is_neg y)
      else if is_zero x \<or> is_zero y then signed_zero (is_neg x \<noteq> is_neg y)
      else (case (x, y) of (Fin a, Fin b) \<Rightarrow> fl (a * b) | _ \<Rightarrow> NaN))"

text \<open>\<open>x / y\<close> (Number::divide).\<close>

definition js_div :: "jsnum \<Rightarrow> jsnum \<Rightarrow> jsnum" where
  "js_div x y =
     (if x = NaN \<or> y = NaN then NaN
      else if (is_inf x \<and> is_inf y) \<or> (is_zero x \<and> is_zero y) then NaN
      else if is_inf x \<or> is_zero y then signed_inf (is_neg x \<noteq> is_neg y)
      else if is_inf y \<or> is_zero x then signed_zero (is_neg x \<noteq> is_neg y)
      else (case (x, y) of (Fin a, Fin b) \<Rightarrow> fl (a / b) | _ \<Rightarrow> NaN))"

text \<open>\<open>Math.ceil\<close>: a value in \<open>(-1, 0)\<close> becomes \<open>-0\<close>.\<close>

fun js_ceil :: "jsnum \<Rightarrow> jsnum" where
  "js_ceil (Fin r) = (if \<lceil>r\<rceil> = 0 \<and> r < 0 then NegZero else Fin (of_int \<lceil>r\<rceil>))"
| "js_ceil x = x"


subsection \<open>\<^verbatim>\<open>toFixed(2)\<close> and \<^verbatim>\<open>parseFloat\<close>\<close>

text \<open>
  \<^verbatim>\<open>x.toFixed(2)\<close> returns a string. Its four shapes are kept apart:
  \<^item> \<open>Fixed_NaN\<close> and \<open>Fixed_Inf neg\<close>: the strings \<^verbatim>\<open>NaN\<close>, \<^verbatim>\<open>Infinity\<close>, \<^verbatim>\<open>-Infinity\<close>
    of a Number that is not finite;
  \<^item> \<open>Fixed_Sci neg q\<close>: for a magnitude \<open>q\<close> of at least \<open>10^21\<close>, the sign followed by the
    ordinary string form of \<open>q\<close> (exponent notation);
  \<^item> \<open>Fixed_Dec neg n\<close>: otherwise the sign followed by the digits of \<open>n\<close> with a point before
    the last two, where \<open>n\<close> is the integer for which \<open>n / 100\<close> is nearest to the magnitude,
    the larger one on a tie.
\<close>

datatype fixed_string = Fixed_Dec bool int | Fixed_Sci bool rat | Fixed_Inf bool | Fixed_NaN

fun toFixed2 :: "jsnum \<Rightarrow> fixed_string" where
  "toFixed2 NaN = Fixed_NaN"
| "toFixed2 PInf = Fixed_Inf False"
| "toFixed2 NInf = Fixed_Inf True"
| "toFixed2 NegZero = Fixed_Dec False 0"
| "toFixed2 (Fin x) =
     (let s = (x < 0); a = \<bar>x\<bar>
      in if 10 ^ 21 \<le> a then Fixed_Sci s a
         else Fixed_Dec s \<lfloor>a * 100 + 1 / 2\<rfloor>)"

text \<open>
  \<^verbatim>\<open>parseFloat\<close> on such a string: the decimal is read and rounded to the nearest Number
  (\<^verbatim>\<open>-0.00\<close> reads as \<open>-0\<close>); the ordinary string form of a Number reads back as that
  Number; \<^verbatim>\<open>NaN\<close> is not a numeric literal and reads as NaN.
\<close>

fun parseFloat :: "fixed_string \<Rightarrow> jsnum" where
  "parseFloat Fixed_NaN = NaN"
| "parseFloat (Fixed_Inf neg) = signed_inf neg"
| "parseFloat (Fixed_Sci neg q) = fl (if neg then - q else q)"
| "parseFloat (Fixed_Dec neg n) =
     (if n = 0 then signed_zero neg
      else fl ((if neg then - 1 else 1) * of_int n / 100))"

subsection \<open>\<^verbatim>\<open>parseInt\<close>\<close>

text \<open>
  Strings are byte strings in UTF-8. \<open>ws_len s\<close> is the number of bytes of the white space or
  line terminator character that \<open>s\<close> starts with (0 when it starts with none).
\<close>

definition ws_chars :: "string list" where
  "ws_chars =
     [[CHR 0x09], [CHR 0x0A], [CHR 0x0B], [CHR 0x0C], [CHR 0x0D], [CHR 0x20],
      [CHR 0xC2, CHR 0xA0], [CHR 0xE1, CHR 0x9A, CHR 0x80],
      [CHR 0xE2, CHR 0x80, CHR 0x80], [CHR 0xE2, CHR 0x80, CHR 0x81],
      [CHR 0xE2, CHR 0x80, CHR 0x82], [CHR 0xE2, CHR 0x80, CHR 0x83],
      [CHR 0xE2, CHR 0x80, CHR 0x84], [CHR 0xE2, CHR 0x80, CHR 0x85],
      [CHR 0xE2, CHR 0x80, CHR 0x86], [CHR 0xE2, CHR 0x80, CHR 0x87],
      [CHR 0xE2, CHR 0x80, CHR 0x88], [CHR 0xE2, CHR 0x80, CHR 0x89],
      [CHR 0xE2, CHR 0x80, CHR 0x8A], [CHR 0xE2, CHR 0x80, CHR 0xA8],
      [CHR 0xE2, CHR 0x80, CHR 0xA9], [CHR 0xE2, CHR 0x80, CHR 0xAF],
      [CHR 0xE2, CHR 0x81, CHR 0x9F], [CHR 0xE3, CHR 0x80, CHR 0x80],
      [CHR 0xEF, CHR 0xBB, CHR 0xBF]]"

definition starts_with :: "string \<Rightarrow> string \<Rightarrow> bool" where
  "starts_with p s = (take (length p) s = p)"

definition ws_len :: "string \<Rightarrow> nat" where
  "ws_len s = (case filter (\<lambda>w. starts_with w s) ws_chars of [] \<Rightarrow> 0 | w # _ \<Rightarrow> length w)"

fun trimStart :: "nat \<Rightarrow> string \<Rightarrow> string" where
  "trimStart 0 s = s"
| "trimStart (Suc k) s = (if ws_len s = 0 then s else trimStart k (drop (ws_len s) s))"

text \<open>The value of a digit in radix 10 or 16.\<close>

definition digit_val :: "int \<Rightarrow> char \<Rightarrow> int option" where
  "digit_val R c =
     (let n = of_char c :: int
      in if 48 \<le> n \<and> n \<le> 57 then Some (n - 48)
         else if R = 16 \<and> 97 \<le> n \<and> n \<le> 102 then Some (n - 87)
         else if R = 16 \<and> 65 \<le> n \<and> n \<le> 70 then Some (n - 55)
         else None)"

text \<open>The longest prefix of digits, read as a number (\<open>None\<close> when there is no digit).\<close>

fun read_digits :: "int \<Rightarrow> int \<Rightarrow> string \<Rightarrow> int option" where
  "read_digits R acc [] = None"
| "read_digits R acc (c # cs) =
     (case digit_val R c of
        None \<Rightarrow> None
      | Some d \<Rightarrow> (case read_digits R (acc * R + d) cs of
                    None \<Rightarrow> Some (acc * R + d)
                  | Some v \<Rightarrow> Some v))"

text \<open>
  \<^verbatim>\<open>parseInt(string)\<close> with no radix: leading white space is skipped, a sign is read, the
  prefix \<^verbatim>\<open>0x\<close> or \<^verbatim>\<open>0X\<close> selects radix 16, and the longest prefix of digits is the value;
  with no digit the result is NaN. Trailing characters are ignored.
\<close>

definition parseInt :: "string \<Rightarrow> jsnum" where
  "parseInt inputString =
     (let S = trimStart (length inputString) inputString;
          neg = starts_with ''-'' S;
          S1 = (if starts_with ''+'' S \<or> starts_with ''-'' S then drop 1 S else S);
          hex = (starts_with ''0x'' S1 \<or> starts_with ''0X'' S1);
          R = (if hex then 16 else 10);
          S2 = (if hex then drop 2 S1 else S1)
      in case read_digits R 0 S2 of
           None \<Rightarrow> NaN
         | Some mathInt \<Rightarrow>
             if mathInt = 0 then signed_zero neg
             else fl ((if neg then - 1 else 1) * of_int mathInt))"


section \<open>Dates\<close>

text \<open>
  A time value is a number of milliseconds since the epoch. A \<^verbatim>\<open>Date\<close> object holds a time
  value or NaN (an Invalid Date), here an \<open>int option\<close>. The local time zone is whatever the
  host provides: its offset at a UTC instant and its offset at a local time.
\<close>

definition msPerDay :: int where
  "msPerDay = 86400000"

record time_zone =
  offset_at_utc :: "int \<Rightarrow> int"
  offset_at_local :: "int \<Rightarrow> int"

definition LocalTime :: "time_zone \<Rightarrow> int \<Rightarrow> int" where
  "LocalTime tz t = t + offset_at_utc tz t"

definition UTC :: "time_zone \<Rightarrow> int \<Rightarrow> int" where
  "UTC tz t = t - offset_at_local tz t"

definition Day :: "int \<Rightarrow> int" where
  "Day t = t div msPerDay"

definition TimeWithinDay :: "int \<Rightarrow> int" where
  "TimeWithinDay t = t mod msPerDay"

definition MakeDate :: "int \<Rightarrow> int \<Rightarrow> int" where
  "MakeDate day time = day * msPerDay + time"

definition TimeClip :: "int \<Rightarrow> int option" where
  "TimeClip t = (if \<bar>t\<bar> \<le> 8640000000000000 then Some t else None)"

text \<open>\<^verbatim>\<open>new Date(v)\<close> for a number \<open>v\<close> (\<open>None\<close> is NaN).\<close>

definition new_Date :: "int option \<Rightarrow> int option" where
  "new_Date v = (case v of None \<Rightarrow> None | Some t \<Rightarrow> TimeClip t)"

text \<open>
  \<^verbatim>\<open>d.setHours(0, 0, 0, 0)\<close> on a valid date with time value \<open>t\<close>: the local day of \<open>t\<close> with
  the time within the day set to 0, converted back to UTC. It returns the new time value.
\<close>

definition setHours_0 :: "time_zone \<Rightarrow> int \<Rightarrow> int option" where
  "setHours_0 tz t = TimeClip (UTC tz (MakeDate (Day (LocalTime tz t)) 0))"

text \<open>
  \<^verbatim>\<open>d.setDate(d.getDate() - k)\<close> on a valid date with time value \<open>t\<close>. \<^verbatim>\<open>setDate(dt)\<close> builds
  the day number \<^verbatim>\<open>MakeDay(year, month, dt)\<close> from the local year and month of \<open>t\<close>, which is
  the day number of the first of that month plus \<open>dt - 1\<close>; with \<open>dt\<close> the local day of the
  month less \<open>k\<close>, that is the local day number of \<open>t\<close> less \<open>k\<close>. The time within the day
  is kept.
\<close>

definition setDate_getDate_minus :: "time_zone \<Rightarrow> int \<Rightarrow> int \<Rightarrow> int option" where
  "setDate_getDate_minus tz t k =
     TimeClip (UTC tz (MakeDate (Day (LocalTime tz t) - k) (TimeWithinDay (LocalTime tz t))))"

text \<open>
  \<^verbatim>\<open>getDateRange(range)\<close>. \<open>now\<close> is the time value of \<^verbatim>\<open>new Date()\<close>, the clock at the call;
  the argument \<^verbatim>\<open>range\<close> is \<open>rng\<close>, \<open>None\<close> when it is \<^verbatim>\<open>undefined\<close>.
\<close>

definition getDateRange :: "time_zone \<Rightarrow> int \<Rightarrow> string option \<Rightarrow> int option" where
  "getDateRange tz now rng =
     (if rng = Some ''today'' then new_Date (setHours_0 tz now)
      else if rng = Some ''7days'' then new_Date (setDate_getDate_minus tz now 7)
      else new_Date (Some 0))"

subsection \<open>Calendar days in UTC\<close>

text \<open>
  The aggregation operator \<^verbatim>\<open>$dateToString\<close> with format \<^verbatim>\<open>%Y-%m-%d\<close> and no time zone
  prints the UTC calendar day of a date. \<open>civil_from_days\<close> is the proleptic Gregorian date
  (year, month, day) of a day number: the days are counted in eras of 400 years from
  1 March of year 0, then in years starting in March, then in months. The operator is
  defined for the years 0 to 9999 only.
\<close>

definition civil_of_month :: "int \<Rightarrow> int \<Rightarrow> int \<Rightarrow> int \<times> int \<times> int" where
  "civil_of_month y mp d = (if mp < 10 then (y, mp + 3, d) else (y + 1, mp - 9, d))"

definition civil_of_year :: "int \<Rightarrow> int \<Rightarrow> int \<times> int \<times> int" where
  "civil_of_year y doy =
     civil_of_month y ((5 * doy + 2) div 153) (doy - (153 * ((5 * doy + 2) div 153) + 2) div 5 + 1)"

definition year_of_era :: "int \<Rightarrow> int" where
  "year_of_era doe = (doe - doe div 1460 + doe div 36524 - doe div 146096) div 365"

definition civil_of_era :: "int \<Rightarrow> int \<Rightarrow> int \<times> int \<times> int" where
  "civil_of_era era doe =
     civil_of_year (year_of_era doe + era * 400)
       (doe - (365 * year_of_era doe + year_of_era doe div 4 - year_of_era doe div 100))"

definition civil_from_days :: "int \<Rightarrow> int \<times> int \<times> int" where
  "civil_from_days n = civil_of_era ((n + 719468) div 146097) ((n + 719468) mod 146097)"

definition digit_char :: "int \<Rightarrow> char" where
  "digit_char n = ''0123456789'' ! nat (n mod 10)"

definition two_digits :: "int \<Rightarrow> string" where
  "two_digits n = [digit_char (n div 10), digit_char n]"

definition four_digits :: "int \<Rightarrow> string" where
  "four_digits n = [digit_char (n div 1000), digit_char (n div 100), digit_char (n div 10), digit_char n]"

definition dateToString :: "int \<Rightarrow> string option" where
  "dateToString t =
     (case civil_from_days (Day t) of
        (y, m, d) \<Rightarrow>
          if 0 \<le> y \<and> y \<le> 9999
          then Some (four_digits y @ ''-'' @ two_digits m @ ''-'' @ two_digits d)
          else None)"


section \<open>The order store\<close>

text \<open>
  An order document with the fields the routes read; the record's extension slot stands for
  the others (line items and so on). \<open>'u\<close> is what the field \<^verbatim>\<open>user_id\<close> holds: the
  identifier of a user in a stored order, the populated user in a listed one.
\<close>

record 'u order =
  order_id :: nat
  user_id :: 'u
  total :: jsnum
  status :: string
  createdAt :: int

record user_doc =
  uid :: nat
  name :: string
  email :: string

text \<open>What \<^verbatim>\<open>populate("user_id", "name email")\<close> puts in place of the reference.\<close>

record populated_user =
  pu_id :: nat
  pu_name :: string
  pu_email :: string

text \<open>
  The query object \<^verbatim>\<open>{ createdAt: { $gte: startDate }, status: ... }\<close>; \<open>status_eq\<close> is
  \<open>None\<close> when the key \<^verbatim>\<open>status\<close> is absent.
\<close>

record filter =
  createdAt_gte :: "int option"
  status_eq :: "string option"

text \<open>A row of the per-day aggregation: \<^verbatim>\<open>{ _id, count, revenue }\<close>.\<close>

record day_row =
  row_id :: string
  row_count :: nat
  row_revenue :: jsnum

text \<open>
  The calls the routes make on the \<^verbatim>\<open>Order\<close> model. Each returns a promise; \<open>Inl msg\<close> is a
  promise rejected with an error whose message is \<open>msg\<close>.
  \<^item> \<open>countDocuments q\<close>: \<^verbatim>\<open>Order.countDocuments(q)\<close>;
  \<^item> \<open>aggregate_total q\<close>: \<^verbatim>\<open>Order.aggregate([{$match: q}, {$group: {_id: null, total: {$sum: "$total"}}}])\<close>,
    the list of the rows' \<^verbatim>\<open>total\<close>;
  \<^item> \<open>distinct_user_id q\<close>: \<^verbatim>\<open>Order.distinct("user_id", q)\<close>;
  \<^item> \<open>aggregate_by_status q\<close>: \<^verbatim>\<open>Order.aggregate([{$match: q}, {$group: {_id: "$status", count: {$sum: 1}}}])\<close>,
    rows \<open>(_id, count)\<close>;
  \<^item> \<open>aggregate_by_day q\<close>: the pipeline of \<^verbatim>\<open>/orders-chart\<close> (match, group by
    \<^verbatim>\<open>$dateToString\<close> of \<^verbatim>\<open>createdAt\<close>, sort by \<^verbatim>\<open>_id\<close> ascending);
  \<^item> \<open>find_page q skip lmt\<close>:
    \<^verbatim>\<open>Order.find(q).sort({createdAt: -1}).skip(skip).limit(lmt).populate("user_id", "name email")\<close>.
\<close>

record store =
  countDocuments :: "filter \<Rightarrow> string + nat"
  aggregate_total :: "filter \<Rightarrow> string + jsnum list"
  distinct_user_id :: "filter \<Rightarrow> string + nat list"
  aggregate_by_status :: "filter \<Rightarrow> string + (string \<times> nat) list"
  aggregate_by_day :: "filter \<Rightarrow> string + day_row list"
  find_page :: "filter \<Rightarrow> jsnum \<Rightarrow> jsnum \<Rightarrow> string + populated_user option order list"

datatype store_call =
    CountDocuments filter
  | AggregateTotal filter
  | DistinctUserId filter
  | AggregateByStatus filter
  | AggregateByDay filter
  | FindPage filter jsnum jsnum

subsection \<open>A store over a fixed collection\<close>

text \<open>
  \<open>mongo docs users\<close> answers every call from one snapshot of the collections, as the
  document database does: documents in their natural order \<open>docs\<close>, users \<open>users\<close>.
  A query whose date bound is an Invalid Date is rejected: for \<^verbatim>\<open>find\<close>,
  \<^verbatim>\<open>countDocuments\<close> and \<^verbatim>\<open>distinct\<close> the filter cannot be cast, with the message
  \<open>cast_error_message\<close>; this store rejects the aggregations in the same way, although
  their pipelines are not cast. The routes build the bound with \<^verbatim>\<open>getDateRange\<close>, which
  gives an Invalid Date only for a clock within days of the end of the time range.
\<close>

definition cast_error_message :: string where
  "cast_error_message =
     ''Cast to date failed for value '' @ [CHR 0x22] @ ''Invalid Date'' @ [CHR 0x22]
     @ '' (type Date) at path '' @ [CHR 0x22] @ ''createdAt'' @ [CHR 0x22]
     @ '' for model '' @ [CHR 0x22] @ ''Order'' @ [CHR 0x22]"

definition matches :: "int \<Rightarrow> string option \<Rightarrow> 'u order \<Rightarrow> bool" where
  "matches t st d = (t \<le> createdAt d \<and> (case st of None \<Rightarrow> True | Some v \<Rightarrow> status d = v))"

definition matching :: "filter \<Rightarrow> 'u order list \<Rightarrow> string + 'u order list" where
  "matching q docs =
     (case createdAt_gte q of
        None \<Rightarrow> Inl cast_error_message
      | Some t \<Rightarrow> Inr (filter (matches t (status_eq q)) docs))"

text \<open>The accumulator \<^verbatim>\<open>$sum\<close> over binary64 values, added in document order.\<close>

definition mongo_sum :: "jsnum list \<Rightarrow> jsnum" where
  "mongo_sum xs = foldl js_add (Fin 0) xs"

definition group_total :: "nat order list \<Rightarrow> jsnum list" where
  "group_total ms = (if ms = [] then [] else [mongo_sum (map total ms)])"

definition group_by_status :: "nat order list \<Rightarrow> (string \<times> nat) list" where
  "group_by_status ms =
     map (\<lambda>s. (s, length (filter (\<lambda>d. status d = s) ms))) (remdups (map status ms))"

text \<open>
  Grouping by the day key fails when \<^verbatim>\<open>$dateToString\<close> is undefined for a matching
  document; otherwise there is one row for each key, in ascending order of the keys (strings
  compare byte by byte).
\<close>

definition group_by_day :: "nat order list \<Rightarrow> string + day_row list" where
  "group_by_day ms =
     (if \<exists>d \<in> set ms. dateToString (createdAt d) = None
      then Inl ''$dateToString is only defined on year 0-9999''
      else Inr (map (\<lambda>k. \<lparr>row_id = k,
                            row_count = length (filter (\<lambda>d. dateToString (createdAt d) = Some k) ms),
                            row_revenue = mongo_sum (map total (filter (\<lambda>d. dateToString (createdAt d) = Some k) ms))\<rparr>)
                    (sort (remdups (map (\<lambda>d. the (dateToString (createdAt d))) ms)))))"

text \<open>The integer a Number denotes, if any.\<close>

definition as_int :: "jsnum \<Rightarrow> int option" where
  "as_int x = (case num_val x of None \<Rightarrow> None
               | Some r \<Rightarrow> if of_int \<lfloor>r\<rfloor> = r then Some \<lfloor>r\<rfloor> else None)"

text \<open>
  \<^verbatim>\<open>skip\<close> and \<^verbatim>\<open>limit\<close> on a cursor: both must be integers and \<^verbatim>\<open>skip\<close> not negative;
  a limit of 0 is no limit, and a negative limit counts as its absolute value.
\<close>

definition skip_limit :: "jsnum \<Rightarrow> jsnum \<Rightarrow> 'a list \<Rightarrow> string + 'a list" where
  "skip_limit skip lmt xs =
     (case (as_int skip, as_int lmt) of
        (Some s, Some l) \<Rightarrow>
          if s < 0 then Inl ''Skip value must be non-negative''
          else Inr (let ys = drop (nat s) xs in if l = 0 then ys else take (nat \<bar>l\<bar>) ys)
      | _ \<Rightarrow> Inl ''skip and limit must be integers'')"

text \<open>Newest first: a stable sort by descending \<^verbatim>\<open>createdAt\<close>.\<close>

definition sort_newest_first :: "'u order list \<Rightarrow> 'u order list" where
  "sort_newest_first ms = sort_key (\<lambda>d. - createdAt d) ms"

definition populate :: "'a user_doc_scheme list \<Rightarrow> nat order \<Rightarrow> populated_user option order" where
  "populate users d =
     \<lparr>order_id = order_id d,
      user_id = map_option (\<lambda>u. \<lparr>pu_id = uid u, pu_name = name u, pu_email = email u\<rparr>)
                           (find (\<lambda>u. uid u = user_id d) users),
      total = total d, status = status d, createdAt = createdAt d\<rparr>"

definition mongo :: "nat order list \<Rightarrow> 'a user_doc_scheme list \<Rightarrow> store" where
  "mongo docs users =
     \<lparr>countDocuments = (\<lambda>q. map_sum id length (matching q docs)),
      aggregate_total = (\<lambda>q. map_sum id group_total (matching q docs)),
      distinct_user_id = (\<lambda>q. map_sum id (\<lambda>ms. remdups (map user_id ms)) (matching q docs)),
      aggregate_by_status = (\<lambda>q. map_sum id group_by_status (matching q docs)),
      aggregate_by_day = (\<lambda>q. case matching q docs of Inl e \<Rightarrow> Inl e | Inr ms \<Rightarrow> group_by_day ms),
      find_page = (\<lambda>q skip lmt.
         case matching q docs of
           Inl e \<Rightarrow> Inl e
         | Inr ms \<Rightarrow> map_sum id (map (populate users)) (skip_limit skip lmt (sort_newest_first ms)))\<rparr>"


section \<open>Requests and responses\<close>

text \<open>
  \<^verbatim>\<open>req.user\<close> is what the authentication middleware attached (\<open>None\<close> when it attached
  nothing); its \<^verbatim>\<open>role\<close> is \<open>None\<close> when the field is missing. \<^verbatim>\<open>req.query\<close> holds the query
  string's parameters, each absent or a string.
\<close>

record caller =
  role :: "string option"

record query =
  q_dateRange :: "string option"
  q_page :: "string option"
  q_limit :: "string option"
  q_status :: "string option"

record request =
  user :: "caller option"
  query :: query

record summary_part =
  totalOrders :: nat
  totalRevenue :: jsnum
  activeUsers :: nat

record orderStatus_part =
  completed :: nat
  cancelled :: nat
  placed :: nat
  preparing :: nat

record chart_point =
  date :: string
  orders :: nat
  revenue :: jsnum

text \<open>The object \<^verbatim>\<open>pagination\<close>; its keys \<^verbatim>\<open>totalOrders\<close> and \<^verbatim>\<open>limit\<close> carry a prefix here.\<close>

record pagination =
  currentPage :: jsnum
  totalPages :: jsnum
  pg_totalOrders :: nat
  pg_limit :: jsnum

datatype body =
    Message_body string
  | Error_body string string
  | Summary_body summary_part orderStatus_part
  | Chart_body "chart_point list"
  | Orders_body "populated_user option order list" pagination

record response =
  statusCode :: nat
  body :: body

text \<open>What a handler did: the store calls it made, in order, and the response it sent.\<close>

record outcome =
  calls :: "store_call list"
  response :: response

text \<open>
  The body of a \<^verbatim>\<open>try\<close> block makes store calls and either sends a response or throws an
  error (\<open>Inl\<close> of its message). \<open>await c r k\<close> is \<^verbatim>\<open>const v = await ...; k v\<close> where the call
  \<open>c\<close> settles as \<open>r\<close>: a rejection is thrown at the \<^verbatim>\<open>await\<close> and nothing after it runs.
\<close>

type_synonym attempt = "store_call list \<times> (string + response)"

definition await :: "store_call \<Rightarrow> string + 'a \<Rightarrow> ('a \<Rightarrow> attempt) \<Rightarrow> attempt" where
  "await c r k =
     (case r of
        Inl e \<Rightarrow> ([c], Inl e)
      | Inr v \<Rightarrow> (case k v of (cs, x) \<Rightarrow> (c # cs, x)))"

text \<open>\<^verbatim>\<open>res.json(b)\<close> sends status 200; \<^verbatim>\<open>res.status(n).json(b)\<close> sends status \<open>n\<close>.\<close>

definition send :: "nat \<Rightarrow> body \<Rightarrow> attempt" where
  "send n b = ([], Inr \<lparr>statusCode = n, body = b\<rparr>)"

definition throw :: "string \<Rightarrow> attempt" where
  "throw e = ([], Inl e)"

text \<open>
  The \<^verbatim>\<open>catch\<close> clause of each handler:
  \<^verbatim>\<open>res.status(500).json({ message: "Server error", error: error.message })\<close>.
\<close>

definition server_error :: "string \<Rightarrow> response" where
  "server_error e = \<lparr>statusCode = 500, body = Error_body ''Server error'' e\<rparr>"

definition try_catch :: "attempt \<Rightarrow> outcome" where
  "try_catch a =
     (case a of
        (cs, Inl e) \<Rightarrow> \<lparr>calls = cs, response = server_error e\<rparr>
      | (cs, Inr r) \<Rightarrow> \<lparr>calls = cs, response = r\<rparr>)"

text \<open>The message of the TypeError raised by reading \<^verbatim>\<open>role\<close> of \<^verbatim>\<open>undefined\<close>.\<close>

definition undefined_role_message :: string where
  "undefined_role_message =
     ''Cannot read properties of undefined (reading '' @ [CHR 0x27] @ ''role'' @ [CHR 0x27] @ '')''"

text \<open>
  The guard every handler starts with:
  \<^verbatim>\<open>if (req.user.role !== "admin") return res.status(403).json({ message: "Admin access required" })\<close>.
\<close>

definition admin_guard :: "request \<Rightarrow> attempt \<Rightarrow> attempt" where
  "admin_guard req rest =
     (case user req of
        None \<Rightarrow> throw undefined_role_message
      | Some u \<Rightarrow>
          if role u \<noteq> Some ''admin'' then send 403 (Message_body ''Admin access required'')
          else rest)"

text \<open>A destructuring default: \<^verbatim>\<open>const { key = dflt } = req.query\<close>.\<close>

definition default_to :: "'a \<Rightarrow> 'a option \<Rightarrow> 'a" where
  "default_to dflt v = (case v of None \<Rightarrow> dflt | Some x \<Rightarrow> x)"

section \<open>The handlers\<close>

text \<open>
  \<^verbatim>\<open>statusBreakdown.find((s) => s._id === key)?.count || 0\<close>.
\<close>

definition status_count :: "string \<Rightarrow> (string \<times> nat) list \<Rightarrow> nat" where
  "status_count key statusBreakdown =
     (case find (\<lambda>s. fst s = key) statusBreakdown of None \<Rightarrow> 0 | Some s \<Rightarrow> snd s)"

text \<open>\<^verbatim>\<open>GET /summary\<close>. \<open>tz\<close> and \<open>now\<close> are the host's time zone and clock, \<open>Order\<close> the store.\<close>

definition summary :: "time_zone \<Rightarrow> int \<Rightarrow> store \<Rightarrow> request \<Rightarrow> outcome" where
  "summary tz now Order req =
     try_catch (admin_guard req
       (let dateRange = default_to ''7days'' (q_dateRange (query req));
            startDate = getDateRange tz now (Some dateRange);
            q = \<lparr>createdAt_gte = startDate, status_eq = None\<rparr>
        in await (CountDocuments q) (countDocuments Order q) (\<lambda>totalOrders.
           await (AggregateTotal q) (aggregate_total Order q) (\<lambda>revenueResult.
           let totalRevenue = (case revenueResult of [] \<Rightarrow> Fin 0 | r # _ \<Rightarrow> r)
           in await (DistinctUserId q) (distinct_user_id Order q) (\<lambda>activeUsers.
              await (AggregateByStatus q) (aggregate_by_status Order q) (\<lambda>statusBreakdown.
              let completed = status_count ''Delivered'' statusBreakdown;
                  cancelled = 0;
                  placed = status_count ''Placed'' statusBreakdown;
                  preparing = status_count ''Preparing'' statusBreakdown
              in send 200 (Summary_body
                   \<lparr>totalOrders = totalOrders,
                    totalRevenue = parseFloat (toFixed2 totalRevenue),
                    activeUsers = length activeUsers\<rparr>
                   \<lparr>completed = completed, cancelled = cancelled,
                    placed = placed, preparing = preparing\<rparr>)))))))"

text \<open>\<^verbatim>\<open>GET /orders-chart\<close>.\<close>

definition ordersChart :: "time_zone \<Rightarrow> int \<Rightarrow> store \<Rightarrow> request \<Rightarrow> outcome" where
  "ordersChart tz now Order req =
     try_catch (admin_guard req
       (let dateRange = default_to ''7days'' (q_dateRange (query req));
            startDate = getDateRange tz now (Some dateRange);
            q = \<lparr>createdAt_gte = startDate, status_eq = None\<rparr>
        in await (AggregateByDay q) (aggregate_by_day Order q) (\<lambda>ordersOverTime.
           let chartData = map (\<lambda>item. \<lparr>date = row_id item,
                                         orders = row_count item,
                                         revenue = parseFloat (toFixed2 (row_revenue item))\<rparr>)
                               ordersOverTime
           in send 200 (Chart_body chartData))))"

text \<open>
  \<^verbatim>\<open>GET /orders\<close>. The defaults of \<^verbatim>\<open>page\<close> and \<^verbatim>\<open>limit\<close> are the numbers 1 and 10, which
  \<^verbatim>\<open>parseInt\<close> first turns into the strings \<^verbatim>\<open>1\<close> and \<^verbatim>\<open>10\<close>.
\<close>

definition ordersList :: "time_zone \<Rightarrow> int \<Rightarrow> store \<Rightarrow> request \<Rightarrow> outcome" where
  "ordersList tz now Order req =
     try_catch (admin_guard req
       (let page = default_to ''1'' (q_page (query req));
            limit = default_to ''10'' (q_limit (query req));
            status = default_to ''all'' (q_status (query req));
            dateRange = default_to ''7days'' (q_dateRange (query req));
            startDate = getDateRange tz now (Some dateRange);
            skip = js_mul (js_sub (parseInt page) (Fin 1)) (parseInt limit);
            q = \<lparr>createdAt_gte = startDate,
                 status_eq = (if status \<noteq> ''all'' then Some status else None)\<rparr>
        in await (FindPage q skip (parseInt limit)) (find_page Order q skip (parseInt limit)) (\<lambda>orders.
           await (CountDocuments q) (countDocuments Order q) (\<lambda>totalOrders.
           send 200 (Orders_body orders
             \<lparr>currentPage = parseInt page,
              totalPages = js_ceil (js_div (Fin (of_nat totalOrders)) (parseInt limit)),
              pg_totalOrders = totalOrders,
              pg_limit = parseInt limit\<rparr>)))))"


section \<open>Names for what the handlers compute, and example data\<close>

text \<open>The query object of \<^verbatim>\<open>/summary\<close> and \<^verbatim>\<open>/orders-chart\<close> for a request.\<close>

definition range_query :: "time_zone \<Rightarrow> int \<Rightarrow> request \<Rightarrow> filter" where
  "range_query tz now req =
     \<lparr>createdAt_gte = getDateRange tz now (Some (default_to ''7days'' (q_dateRange (query req)))),
      status_eq = None\<rparr>"

text \<open>The query object, the page, the limit and the skip value of \<^verbatim>\<open>/orders\<close> for a request.\<close>

definition list_query :: "time_zone \<Rightarrow> int \<Rightarrow> request \<Rightarrow> filter" where
  "list_query tz now req =
     \<lparr>createdAt_gte = getDateRange tz now (Some (default_to ''7days'' (q_dateRange (query req)))),
      status_eq = (if default_to ''all'' (q_status (query req)) \<noteq> ''all''
                   then Some (default_to ''all'' (q_status (query req))) else None)\<rparr>"

definition list_page :: "request \<Rightarrow> jsnum" where
  "list_page req = parseInt (default_to ''1'' (q_page (query req)))"

definition list_limit :: "request \<Rightarrow> jsnum" where
  "list_limit req = parseInt (default_to ''10'' (q_limit (query req)))"

definition list_skip :: "request \<Rightarrow> jsnum" where
  "list_skip req = js_mul (js_sub (list_page req) (Fin 1)) (list_limit req)"

text \<open>A host on UTC, requests with and without an admin caller, and a small collection.\<close>

definition utc_zone :: time_zone where
  "utc_zone = \<lparr>offset_at_utc = (\<lambda>t. 0), offset_at_local = (\<lambda>t. 0)\<rparr>"

definition no_params :: query where
  "no_params = \<lparr>q_dateRange = None, q_page = None, q_limit = None, q_status = None\<rparr>"

definition request_as :: "string \<Rightarrow> query \<Rightarrow> request" where
  "request_as r q = \<lparr>user = Some \<lparr>role = Some r\<rparr>, query = q\<rparr>"

definition anonymous_request :: "query \<Rightarrow> request" where
  "anonymous_request q = \<lparr>user = None, query = q\<rparr>"

definition example_now :: int where
  "example_now = 1730628000000"

definition example_orders :: "nat order list" where
  "example_orders =
     [\<lparr>order_id = 1, user_id = 7, total = fl (10005 / 1000), status = ''Placed'',
       createdAt = 1730600000000\<rparr>,
      \<lparr>order_id = 2, user_id = 7, total = Fin 5, status = ''Delivered'',
       createdAt = 1730500000000\<rparr>,
      \<lparr>order_id = 3, user_id = 8, total = Fin 0, status = ''Placed'',
       createdAt = 1730610000000\<rparr>]"

definition example_users :: "user_doc list" where
  "example_users =
     [\<lparr>uid = 7, name = ''Ann'', email = ''ann@example.org''\<rparr>,
      \<lparr>uid = 8, name = ''Bob'', email = ''bob@example.org''\<rparr>]"

text \<open>A store in which one of the calls is rejected with the given message.\<close>

definition failing_count :: "string \<Rightarrow> store \<Rightarrow> store" where
  "failing_count msg db = db\<lparr>countDocuments := (\<lambda>q. Inl msg)\<rparr>"

definition failing_total :: "string \<Rightarrow> store \<Rightarrow> store" where
  "failing_total msg db = db\<lparr>aggregate_total := (\<lambda>q. Inl msg)\<rparr>"

definition failing_distinct :: "string \<Rightarrow> store \<Rightarrow> store" where
  "failing_distinct msg db = db\<lparr>distinct_user_id := (\<lambda>q. Inl msg)\<rparr>"

definition failing_by_status :: "string \<Rightarrow> store \<Rightarrow> store" where
  "failing_by_status msg db = db\<lparr>aggregate_by_status := (\<lambda>q. Inl msg)\<rparr>"

definition failing_by_day :: "string \<Rightarrow> store \<Rightarrow> store" where
  "failing_by_day msg db = db\<lparr>aggregate_by_day := (\<lambda>q. Inl msg)\<rparr>"

definition failing_find :: "string \<Rightarrow> store \<Rightarrow> store" where
  "failing_find msg db = db\<lparr>find_page := (\<lambda>q skip lmt. Inl msg)\<rparr>"

text \<open>
  A store whose cursor accepts whatever \<^verbatim>\<open>skip\<close> and \<^verbatim>\<open>limit\<close> it is given: a value that is
  not an integer counts as 0.
\<close>

definition accepting_any_page :: "store \<Rightarrow> store" where
  "accepting_any_page db =
     db\<lparr>find_page := (\<lambda>q skip lmt.
           find_page db q (if as_int skip = None then Fin 0 else skip)
                          (if as_int lmt = None then Fin 0 else lmt))\<rparr>"

text \<open>A collection of 25 orders, one a second, the last one newest.\<close>

definition example_25 :: "nat order list" where
  "example_25 =
     map (\<lambda>i. \<lparr>order_id = i, user_id = 7, total = Fin 1, status = ''Placed'',
                createdAt = 1730600000000 + 1000 * int i\<rparr>) [0..<25]"

text \<open>The same users as documents with one more field, the role.\<close>

definition example_accounts :: "string user_doc_scheme list" where
  "example_accounts =
     [\<lparr>uid = 7, name = ''Ann'', email = ''ann@example.org'', \<dots> = ''customer''\<rparr>,
      \<lparr>uid = 8, name = ''Bob'', email = ''bob@example.org'', \<dots> = ''admin''\<rparr>]"

text \<open>
  A number rounded to two decimal places, a tie away from zero: the nearest multiple of
  \<open>1/100\<close>.
\<close>

definition round2 :: "rat \<Rightarrow> rat" where
  "round2 x = sgn x * of_int \<lfloor>\<bar>x\<bar> * 100 + 1 / 2\<rfloor> / 100"

section \<open>The admin guard and the error boundary\<close>

lemma try_catch_send [simp]:
  "try_catch (send n b) = \<lparr>calls = [], response = \<lparr>statusCode = n, body = b\<rparr>\<rparr>"
  by (simp add: try_catch_def send_def)

lemma try_catch_throw [simp]:
  "try_catch (throw e) = \<lparr>calls = [], response = server_error e\<rparr>"
  by (simp add: try_catch_def throw_def)

lemma guard_admin [simp]:
  "user req = Some u \<Longrightarrow> role u = Some ''admin'' \<Longrightarrow> admin_guard req rest = rest"
  by (simp add: admin_guard_def)

lemma guard_other [simp]:
  "user req = Some u \<Longrightarrow> role u \<noteq> Some ''admin'' \<Longrightarrow>
   admin_guard req rest = send 403 (Message_body ''Admin access required'')"
  by (simp add: admin_guard_def)

lemma guard_absent [simp]:
  "user req = None \<Longrightarrow> admin_guard req rest = throw undefined_role_message"
  by (simp add: admin_guard_def)

lemma await_Inl [simp]: "await c (Inl e) k = ([c], Inl e)"
  by (simp add: await_def)

lemma await_Inr [simp]: "await c (Inr v) k = (c # fst (k v), snd (k v))"
  by (simp add: await_def split: prod.splits)

lemma try_catch_pair:
  "try_catch (cs, x) =
     \<lparr>calls = cs, response = (case x of Inl e \<Rightarrow> server_error e | Inr r \<Rightarrow> r)\<rparr>"
  by (simp add: try_catch_def split: sum.splits)

lemma try_catch_calls [simp]: "calls (try_catch a) = fst a"
  by (cases a) (simp add: try_catch_def split: sum.splits)

lemma try_catch_response [simp]:
  "response (try_catch a) = (case snd a of Inl e \<Rightarrow> server_error e | Inr r \<Rightarrow> r)"
  by (cases a) (simp add: try_catch_def split: sum.splits)

text \<open>
  C1. A caller whose role is not \<^verbatim>\<open>admin\<close> (a missing role included) gets status 403 with
  the body \<^verbatim>\<open>{ message: "Admin access required" }\<close> from each of the three handlers, and the
  handler makes no call on the store.
\<close>

theorem non_admin_forbidden:
  assumes "user req = Some u" and "role u \<noteq> Some ''admin''"
  shows "summary tz now Order req =
           \<lparr>calls = [], response = \<lparr>statusCode = 403, body = Message_body ''Admin access required''\<rparr>\<rparr>
       \<and> ordersChart tz now Order req =
           \<lparr>calls = [], response = \<lparr>statusCode = 403, body = Message_body ''Admin access required''\<rparr>\<rparr>
       \<and> ordersList tz now Order req =
           \<lparr>calls = [], response = \<lparr>statusCode = 403, body = Message_body ''Admin access required''\<rparr>\<rparr>"
  using assms by (simp add: summary_def ordersChart_def ordersList_def)

theorem non_admin_forbidden_witness:
  "summary utc_zone example_now (mongo example_orders example_users) (request_as ''customer'' no_params) =
     \<lparr>calls = [], response = \<lparr>statusCode = 403, body = Message_body ''Admin access required''\<rparr>\<rparr>
   \<and> ordersChart utc_zone example_now (mongo example_orders example_users) (request_as ''customer'' no_params) =
     \<lparr>calls = [], response = \<lparr>statusCode = 403, body = Message_body ''Admin access required''\<rparr>\<rparr>
   \<and> ordersList utc_zone example_now (mongo example_orders example_users) (request_as ''customer'' no_params) =
     \<lparr>calls = [], response = \<lparr>statusCode = 403, body = Message_body ''Admin access required''\<rparr>\<rparr>"
  by (rule non_admin_forbidden [of "request_as ''customer'' no_params" "\<lparr>role = Some ''customer''\<rparr>"])
     (simp_all add: request_as_def)

text \<open>
  C10. A request that reaches a handler with no caller attached gets status 500 with the
  message \<^verbatim>\<open>Server error\<close> (and the TypeError's message as \<^verbatim>\<open>error\<close>), so neither 401 nor
  403, from each of the three handlers; no call is made on the store.
\<close>

theorem absent_caller_is_500:
  assumes "user req = None"
  shows "summary tz now Order req =
           \<lparr>calls = [], response = \<lparr>statusCode = 500, body = Error_body ''Server error'' undefined_role_message\<rparr>\<rparr>
       \<and> ordersChart tz now Order req =
           \<lparr>calls = [], response = \<lparr>statusCode = 500, body = Error_body ''Server error'' undefined_role_message\<rparr>\<rparr>
       \<and> ordersList tz now Order req =
           \<lparr>calls = [], response = \<lparr>statusCode = 500, body = Error_body ''Server error'' undefined_role_message\<rparr>\<rparr>"
  using assms by (simp add: summary_def ordersChart_def ordersList_def server_error_def)

theorem absent_caller_is_500_witness:
  "summary utc_zone example_now (mongo example_orders example_users) (anonymous_request no_params) =
     \<lparr>calls = [], response = \<lparr>statusCode = 500, body = Error_body ''Server error'' undefined_role_message\<rparr>\<rparr>
   \<and> ordersChart utc_zone example_now (mongo example_orders example_users) (anonymous_request no_params) =
     \<lparr>calls = [], response = \<lparr>statusCode = 500, body = Error_body ''Server error'' undefined_role_message\<rparr>\<rparr>
   \<and> ordersList utc_zone example_now (mongo example_orders example_users) (anonymous_request no_params) =
     \<lparr>calls = [], response = \<lparr>statusCode = 500, body = Error_body ''Server error'' undefined_role_message\<rparr>\<rparr>"
  by (rule absent_caller_is_500) (simp add: anonymous_request_def)

section \<open>Store failures\<close>

lemma example_range_query:
  "range_query utc_zone example_now (request_as r no_params) =
     \<lparr>createdAt_gte = Some 1730023200000, status_eq = None\<rparr>"
  by (simp add: range_query_def request_as_def no_params_def default_to_def getDateRange_def
      new_Date_def setDate_getDate_minus_def TimeClip_def UTC_def LocalTime_def MakeDate_def
      Day_def TimeWithinDay_def msPerDay_def utc_zone_def example_now_def)

lemma example_list_query:
  "list_query utc_zone example_now (request_as r no_params) =
     \<lparr>createdAt_gte = Some 1730023200000, status_eq = None\<rparr>"
  by (simp add: list_query_def request_as_def no_params_def default_to_def getDateRange_def
      new_Date_def setDate_getDate_minus_def TimeClip_def UTC_def LocalTime_def MakeDate_def
      Day_def TimeWithinDay_def msPerDay_def utc_zone_def example_now_def)

lemma example_matching:
  "matching \<lparr>createdAt_gte = Some 1730023200000, status_eq = None\<rparr> example_orders = Inr example_orders"
  by (simp add: matching_def matches_def example_orders_def)

text \<open>
  C8. For an admin caller, when a store call is rejected with message \<open>e\<close> (the earlier
  calls of the handler having succeeded), the handler's outcome is exactly: the calls up to
  and including the rejected one, each made once and none after it, and the response with
  status 500 and body \<^verbatim>\<open>{ message: "Server error", error: e }\<close>. So nothing is retried and
  nothing of the earlier results is sent.
\<close>

theorem store_failure_is_500:
  assumes "user req = Some u" and "role u = Some ''admin''"
  shows "(countDocuments Order (range_query tz now req) = Inl e \<longrightarrow>
            summary tz now Order req =
              \<lparr>calls = [CountDocuments (range_query tz now req)], response = server_error e\<rparr>)
       \<and> (countDocuments Order (range_query tz now req) = Inr n
          \<and> aggregate_total Order (range_query tz now req) = Inl e \<longrightarrow>
            summary tz now Order req =
              \<lparr>calls = [CountDocuments (range_query tz now req),
                        AggregateTotal (range_query tz now req)],
               response = server_error e\<rparr>)
       \<and> (countDocuments Order (range_query tz now req) = Inr n
          \<and> aggregate_total Order (range_query tz now req) = Inr rs
          \<and> distinct_user_id Order (range_query tz now req) = Inl e \<longrightarrow>
            summary tz now Order req =
              \<lparr>calls = [CountDocuments (range_query tz now req),
                        AggregateTotal (range_query tz now req),
                        DistinctUserId (range_query tz now req)],
               response = server_error e\<rparr>)
       \<and> (countDocuments Order (range_query tz now req) = Inr n
          \<and> aggregate_total Order (range_query tz now req) = Inr rs
          \<and> distinct_user_id Order (range_query tz now req) = Inr us
          \<and> aggregate_by_status Order (range_query tz now req) = Inl e \<longrightarrow>
            summary tz now Order req =
              \<lparr>calls = [CountDocuments (range_query tz now req),
                        AggregateTotal (range_query tz now req),
                        DistinctUserId (range_query tz now req),
                        AggregateByStatus (range_query tz now req)],
               response = server_error e\<rparr>)
       \<and> (aggregate_by_day Order (range_query tz now req) = Inl e \<longrightarrow>
            ordersChart tz now Order req =
              \<lparr>calls = [AggregateByDay (range_query tz now req)], response = server_error e\<rparr>)
       \<and> (find_page Order (list_query tz now req) (list_skip req) (list_limit req) = Inl e \<longrightarrow>
            ordersList tz now Order req =
              \<lparr>calls = [FindPage (list_query tz now req) (list_skip req) (list_limit req)],
               response = server_error e\<rparr>)
       \<and> (find_page Order (list_query tz now req) (list_skip req) (list_limit req) = Inr os
          \<and> countDocuments Order (list_query tz now req) = Inl e \<longrightarrow>
            ordersList tz now Order req =
              \<lparr>calls = [FindPage (list_query tz now req) (list_skip req) (list_limit req),
                        CountDocuments (list_query tz now req)],
               response = server_error e\<rparr>)"
  using assms
  by (simp add: summary_def ordersChart_def ordersList_def range_query_def list_query_def
      list_skip_def list_limit_def list_page_def Let_def try_catch_pair send_def)

theorem store_failure_is_500_witness:
  "summary utc_zone example_now (failing_count ''connection lost'' (mongo example_orders example_users))
       (request_as ''admin'' no_params) =
     \<lparr>calls = [CountDocuments \<lparr>createdAt_gte = Some 1730023200000, status_eq = None\<rparr>],
      response = \<lparr>statusCode = 500, body = Error_body ''Server error'' ''connection lost''\<rparr>\<rparr>
   \<and> summary utc_zone example_now (failing_total ''connection lost'' (mongo example_orders example_users))
       (request_as ''admin'' no_params) =
     \<lparr>calls = [CountDocuments \<lparr>createdAt_gte = Some 1730023200000, status_eq = None\<rparr>,
               AggregateTotal \<lparr>createdAt_gte = Some 1730023200000, status_eq = None\<rparr>],
      response = \<lparr>statusCode = 500, body = Error_body ''Server error'' ''connection lost''\<rparr>\<rparr>
   \<and> ordersChart utc_zone example_now (failing_by_day ''connection lost'' (mongo example_orders example_users))
       (request_as ''admin'' no_params) =
     \<lparr>calls = [AggregateByDay \<lparr>createdAt_gte = Some 1730023200000, status_eq = None\<rparr>],
      response = \<lparr>statusCode = 500, body = Error_body ''Server error'' ''connection lost''\<rparr>\<rparr>"
proof -
  let ?req = "request_as ''admin'' no_params"
  let ?db = "mongo example_orders example_users"
  have adm: "user ?req = Some \<lparr>role = Some ''admin''\<rparr>" "role \<lparr>role = Some ''admin''\<rparr> = Some ''admin''"
    by (simp_all add: request_as_def)
  note th = store_failure_is_500 [OF adm, where tz = utc_zone and now = example_now and e = "''connection lost''"]
  have 1: "summary utc_zone example_now (failing_count ''connection lost'' ?db) ?req =
     \<lparr>calls = [CountDocuments \<lparr>createdAt_gte = Some 1730023200000, status_eq = None\<rparr>],
      response = \<lparr>statusCode = 500, body = Error_body ''Server error'' ''connection lost''\<rparr>\<rparr>"
    using th [where Order = "failing_count ''connection lost'' ?db"]
    by (simp add: example_range_query failing_count_def server_error_def)
  have 2: "summary utc_zone example_now (failing_total ''connection lost'' ?db) ?req =
     \<lparr>calls = [CountDocuments \<lparr>createdAt_gte = Some 1730023200000, status_eq = None\<rparr>,
               AggregateTotal \<lparr>createdAt_gte = Some 1730023200000, status_eq = None\<rparr>],
      response = \<lparr>statusCode = 500, body = Error_body ''Server error'' ''connection lost''\<rparr>\<rparr>"
    using th [where Order = "failing_total ''connection lost'' ?db" and n = 3]
    by (simp add: example_range_query failing_total_def server_error_def mongo_def example_matching)
       (simp add: example_orders_def)
  have 3: "ordersChart utc_zone example_now (failing_by_day ''connection lost'' ?db) ?req =
     \<lparr>calls = [AggregateByDay \<lparr>createdAt_gte = Some 1730023200000, status_eq = None\<rparr>],
      response = \<lparr>statusCode = 500, body = Error_body ''Server error'' ''connection lost''\<rparr>\<rparr>"
    using th [where Order = "failing_by_day ''connection lost'' ?db"]
    by (simp add: example_range_query failing_by_day_def server_error_def)
  from 1 2 3 show ?thesis by simp
qed

section \<open>Rounding to a Number\<close>

lemma pow2_powi: "pow2 e = 2 powi e"
  by (simp add: pow2_def power_int_def inverse_eq_divide power_one_over)

lemma pow2_pos [simp]: "0 < pow2 e"
  by (simp add: pow2_powi)

lemma pow2_add: "pow2 (a + b) = pow2 a * pow2 b"
  by (simp add: pow2_powi power_int_add)

lemma pow2_mono: "a \<le> b \<Longrightarrow> pow2 a \<le> pow2 b"
  by (simp add: pow2_powi power_int_increasing)

lemma pow2_strict_mono: "a < b \<Longrightarrow> pow2 a < pow2 b"
  by (simp add: pow2_powi power_int_strict_increasing)

lemma pow2_nat: "0 \<le> e \<Longrightarrow> pow2 e = of_int (2 ^ nat e)"
  by (simp add: pow2_def)

lemma expo_bounds:
  assumes "q \<noteq> 0"
  shows "pow2 (expo q) \<le> \<bar>q\<bar> \<and> \<bar>q\<bar> < pow2 (expo q + 1)"
proof (cases "1 \<le> \<bar>q\<bar>")
  case True
  define n where "n = \<lfloor>\<bar>q\<bar>\<rfloor>"
  have n1: "1 \<le> n" using True by (simp add: n_def le_floor_iff)
  then have npos: "0 < n" by simp
  have e: "expo q = bitlen n - 1" using True by (simp add: expo_def n_def)
  have bl: "1 \<le> bitlen n" using npos bitlen_eq_zero_iff [of n] bitlen_nonneg [of n] by linarith
  from bitlen_bounds [OF npos]
  have lo: "2 ^ nat (bitlen n - 1) \<le> n" and hi: "n < 2 ^ nat (bitlen n)" by simp_all
  have "pow2 (bitlen n - 1) = of_int (2 ^ nat (bitlen n - 1))"
    using bl by (simp add: pow2_nat)
  also have "\<dots> \<le> of_int n" using lo by (simp only: of_int_le_iff)
  also have "\<dots> \<le> \<bar>q\<bar>" by (simp add: n_def)
  finally have A: "pow2 (expo q) \<le> \<bar>q\<bar>" by (simp add: e)
  have "n + 1 \<le> 2 ^ nat (bitlen n)" using hi by simp
  then have "(of_int (n + 1) :: rat) \<le> of_int (2 ^ nat (bitlen n))" by (simp only: of_int_le_iff)
  moreover have "\<bar>q\<bar> < of_int (n + 1)" unfolding n_def by linarith
  ultimately have "\<bar>q\<bar> < of_int (2 ^ nat (bitlen n))" by linarith
  also have "\<dots> = pow2 (bitlen n)" using bl by (simp add: pow2_nat)
  finally have B: "\<bar>q\<bar> < pow2 (expo q + 1)" by (simp add: e)
  from A B show ?thesis by simp
next
  case False
  define a where "a = \<bar>q\<bar>"
  have a: "0 < a" "a < 1" using False assms by (simp_all add: a_def)
  define c where "c = \<lceil>1 / a\<rceil>"
  have inv: "1 < 1 / a" using a by simp
  have c2: "2 \<le> c" unfolding c_def using inv by linarith
  define j where "j = bitlen (c - 1)"
  have e: "expo q = - j" using False by (simp add: expo_def j_def c_def a_def)
  have cpos: "0 < c - 1" using c2 by simp
  have j1: "1 \<le> j" unfolding j_def using cpos bitlen_eq_zero_iff [of "c - 1"] bitlen_nonneg [of "c - 1"] by linarith
  from bitlen_bounds [OF cpos]
  have lo: "2 ^ nat (j - 1) \<le> c - 1" and hi: "c - 1 < 2 ^ nat j" by (simp_all add: j_def)
  have "1 / a \<le> of_int c" unfolding c_def by linarith
  also have "(of_int c :: rat) \<le> of_int (2 ^ nat j)"
  proof -
    have "c \<le> 2 ^ nat j" using hi by simp
    then show ?thesis by (simp only: of_int_le_iff)
  qed
  also have "\<dots> = pow2 j" using j1 by (simp add: pow2_nat)
  finally have "1 / a \<le> pow2 j" .
  then have "1 \<le> pow2 j * a" using a by (simp add: field_simps)
  then have le: "pow2 (- j) * 1 \<le> pow2 (- j) * (pow2 j * a)"
    by (intro mult_left_mono) (simp_all add: less_imp_le)
  have one': "pow2 (- j) * pow2 j = 1" using pow2_add [of "- j" j] by (simp add: pow2_def)
  have "pow2 (- j) = pow2 (- j) * 1" by simp
  also have "\<dots> \<le> pow2 (- j) * (pow2 j * a)" by (rule le)
  also have "\<dots> = (pow2 (- j) * pow2 j) * a" by (simp only: mult.assoc)
  also have "\<dots> = a" by (simp only: one' mult_1)
  finally have A: "pow2 (- j) \<le> a" .
  have "(of_int (2 ^ nat (j - 1)) :: rat) \<le> of_int (c - 1)" using lo by (simp only: of_int_le_iff)
  moreover have "of_int (c - 1) < 1 / a" unfolding c_def by linarith
  moreover have "pow2 (j - 1) = of_int (2 ^ nat (j - 1))" using j1 by (simp add: pow2_nat)
  ultimately have "pow2 (j - 1) < 1 / a" by linarith
  then have "pow2 (j - 1) * a < 1" using a by (simp add: field_simps)
  then have lt: "pow2 (- j + 1) * (pow2 (j - 1) * a) < pow2 (- j + 1) * 1"
    by (intro mult_strict_left_mono) simp_all
  have one: "pow2 (- j + 1) * pow2 (j - 1) = 1"
    using pow2_add [of "- j + 1" "j - 1"] by (simp add: pow2_def)
  have "a = (pow2 (- j + 1) * pow2 (j - 1)) * a" by (simp only: one mult_1)
  also have "\<dots> = pow2 (- j + 1) * (pow2 (j - 1) * a)" by (simp only: mult.assoc)
  also have "\<dots> < pow2 (- j + 1) * 1" by (rule lt)
  finally have B: "a < pow2 (- j + 1)" by simp
  from A B show ?thesis by (simp add: e a_def)
qed

lemma expo_unique:
  assumes "pow2 e \<le> \<bar>q\<bar>" and "\<bar>q\<bar> < pow2 (e + 1)"
  shows "expo q = e"
proof -
  have q: "q \<noteq> 0"
  proof
    assume "q = 0"
    with assms(1) have "pow2 e \<le> 0" by simp
    with pow2_pos [of e] show False by linarith
  qed
  from expo_bounds [OF q] have b: "pow2 (expo q) \<le> \<bar>q\<bar>" "\<bar>q\<bar> < pow2 (expo q + 1)" by simp_all
  have "\<not> expo q < e"
  proof
    assume "expo q < e"
    then have "pow2 (expo q + 1) \<le> pow2 e" by (intro pow2_mono) simp
    with b assms show False by linarith
  qed
  moreover have "\<not> e < expo q"
  proof
    assume "e < expo q"
    then have "pow2 (e + 1) \<le> pow2 (expo q)" by (intro pow2_mono) simp
    with b assms show False by linarith
  qed
  ultimately show ?thesis by simp
qed

lemma rne_of_int [simp]: "rne (of_int k) = k"
  by (simp add: rne_def)

lemma rne_lower: "of_int j \<le> r \<Longrightarrow> j \<le> rne r"
proof -
  assume "of_int j \<le> r"
  then have "j \<le> \<lfloor>r\<rfloor>" by (simp add: le_floor_iff)
  then show ?thesis by (simp add: rne_def Let_def)
qed

lemma rne_upper: "r \<le> of_int j \<Longrightarrow> rne r \<le> j"
proof (cases "r = of_int j")
  case True
  then show ?thesis by simp
next
  case False
  assume "r \<le> of_int j"
  with False have "r < of_int j" by simp
  then have "\<lfloor>r\<rfloor> < j" by (simp add: floor_less_iff)
  then show ?thesis by (simp add: rne_def Let_def)
qed

lemma rne_gt: "of_int j + 1 / 2 < r \<Longrightarrow> j < rne r"
proof -
  assume a: "of_int j + 1 / 2 < r"
  then have "of_int j \<le> r" by simp
  then have f: "j \<le> \<lfloor>r\<rfloor>" by (simp add: le_floor_iff)
  show ?thesis
  proof (cases "j = \<lfloor>r\<rfloor>")
    case True
    with a have "1 / 2 < r - of_int \<lfloor>r\<rfloor>" by simp
    then show ?thesis using True by (simp add: rne_def Let_def)
  next
    case False
    with f have "j < \<lfloor>r\<rfloor>" by simp
    then show ?thesis by (simp add: rne_def Let_def)
  qed
qed

lemma fl_exact:
  assumes "q \<noteq> 0"
    and "q = of_int k * pow2 (max (expo q) (- 1022) - 52)"
    and "\<bar>q\<bar> < pow2 1024"
  shows "fl q = Fin q"
proof -
  define u where "u = pow2 (max (expo q) (- 1022) - 52)"
  have u: "0 < u" by (simp add: u_def)
  from assms(2) have qu: "q = of_int k * u" by (simp only: u_def)
  have "of_int k * u / u = of_int k" using u by simp
  then have quot: "q / u = of_int k" by (simp only: qu [symmetric])
  have "of_int (rne (q / u)) * u = q" by (simp only: quot rne_of_int qu [symmetric])
  then show ?thesis using assms(1,3) by (simp add: fl_def Let_def u_def)
qed

lemma fl_int:
  assumes "\<bar>n\<bar> \<le> 2 ^ 53"
  shows "fl (of_int n) = Fin (of_int n)"
proof (cases "n = 0")
  case True
  then show ?thesis by (simp add: fl_def)
next
  case False
  define q :: rat where "q = of_int n"
  have q0: "q \<noteq> 0" using False by (simp add: q_def)
  define e where "e = expo q"
  from expo_bounds [OF q0] have lo: "pow2 e \<le> \<bar>q\<bar>" and hi: "\<bar>q\<bar> < pow2 (e + 1)"
    by (simp_all add: e_def)
  have "1 \<le> \<bar>n\<bar>" using False by simp
  then have q1: "1 \<le> \<bar>q\<bar>" unfolding q_def by (simp only: of_int_abs [symmetric] of_int_1_le_iff)
  have qle: "\<bar>q\<bar> \<le> pow2 53"
  proof -
    have "(of_int \<bar>n\<bar> :: rat) \<le> of_int (2 ^ 53)" using assms by (simp only: of_int_le_iff)
    then show ?thesis by (simp add: q_def pow2_def)
  qed
  have e0: "0 \<le> e"
  proof (rule ccontr)
    assume "\<not> 0 \<le> e"
    then have "pow2 (e + 1) \<le> pow2 0" by (intro pow2_mono) simp
    with hi q1 show False by (simp add: pow2_def)
  qed
  have e53: "e \<le> 53"
  proof (rule ccontr)
    assume "\<not> e \<le> 53"
    then have "pow2 54 \<le> pow2 e" by (intro pow2_mono) simp
    moreover have "pow2 53 < pow2 54" by (intro pow2_strict_mono) simp
    ultimately show False using lo qle by linarith
  qed
  have mx: "max e (- 1022) = e" using e0 by simp
  have bound: "\<bar>q\<bar> < pow2 1024"
  proof -
    have "pow2 53 < pow2 1024" by (intro pow2_strict_mono) simp
    with qle show ?thesis by linarith
  qed
  have "\<exists>k. q = of_int k * pow2 (e - 52)"
  proof (cases "e \<le> 52")
    case True
    have "pow2 (52 - e) * pow2 (e - 52) = 1" using pow2_add [of "52 - e" "e - 52"] by (simp add: pow2_def)
    moreover have "pow2 (52 - e) = of_int (2 ^ nat (52 - e))" using True by (simp add: pow2_nat)
    ultimately have one: "(of_int (2 ^ nat (52 - e)) :: rat) * pow2 (e - 52) = 1" by simp
    have "q = of_int n * (of_int (2 ^ nat (52 - e)) * pow2 (e - 52))" by (simp only: one q_def mult_1_right)
    also have "\<dots> = of_int (n * 2 ^ nat (52 - e)) * pow2 (e - 52)" by (simp only: of_int_mult mult.assoc)
    finally have "q = of_int (n * 2 ^ nat (52 - e)) * pow2 (e - 52)" .
    then show ?thesis by blast
  next
    case False
    with e53 have e: "e = 53" by simp
    with lo qle have "\<bar>q\<bar> = pow2 53" by simp
    then have "(of_int \<bar>n\<bar> :: rat) = of_int (2 ^ 53)" by (simp add: q_def pow2_def)
    then have "\<bar>n\<bar> = 2 ^ 53" by (simp only: of_int_eq_iff)
    then have "n = 2 ^ 53 \<or> n = - (2 ^ 53)" by linarith
    then have "q = of_int (n div 2) * pow2 (e - 52)"
      by (auto simp add: q_def e pow2_def)
    then show ?thesis by blast
  qed
  then obtain k where "q = of_int k * pow2 (max (expo q) (- 1022) - 52)"
    using mx by (auto simp add: e_def)
  from fl_exact [OF q0 this bound] show ?thesis by (simp add: q_def)
qed

lemma fl_Fin_bound: "fl q = Fin r \<Longrightarrow> \<bar>r\<bar> < pow2 1024"
  by (auto simp add: fl_def Let_def pow2_def split: if_splits)

lemma num_val_ceil_fl:
  assumes r: "r = of_int (rne (q / u)) * u" and u: "u = pow2 (max (expo q) (- 1022) - 52)"
    and q0: "q \<noteq> 0" and b: "\<bar>r\<bar> < pow2 1024" and c: "\<lceil>r\<rceil> = k"
  shows "num_val (js_ceil (fl q)) = Some (of_int k)"
proof -
  have "fl q = (if r = 0 then (if q < 0 then NegZero else Fin 0) else Fin r)"
    using q0 b by (simp add: fl_def Let_def r u)
  then show ?thesis using c by (auto split: if_splits)
qed

lemma ceil_fl_div:
  fixes n :: nat and l :: int
  assumes n0: "0 < n" and n53: "n < 2 ^ 53" and l0: "l \<noteq> 0"
    and lb: "\<bar>of_int l :: rat\<bar> < pow2 1024"
  shows "num_val (js_ceil (fl (of_nat n / of_int l))) = Some (of_int \<lceil>(of_nat n :: rat) / of_int l\<rceil>)"
proof -
  define q :: rat where "q = of_nat n / of_int l"
  define a :: rat where "a = \<bar>of_int l\<bar>"
  define k where "k = \<lceil>q\<rceil>"
  have a1: "1 \<le> a"
  proof -
    have "1 \<le> \<bar>l\<bar>" using l0 by simp
    then have "(1 :: rat) \<le> of_int \<bar>l\<bar>" by (simp only: of_int_1_le_iff)
    then show ?thesis by (simp add: a_def)
  qed
  have npos: "(0 :: rat) < of_nat n" using n0 by simp
  have nlt: "(of_nat n :: rat) < pow2 53"
  proof -
    have "int n < 2 ^ 53" using n53 by simp
    then have "(of_int (int n) :: rat) < of_int (2 ^ 53)" by (simp only: of_int_less_iff)
    then show ?thesis by (simp add: pow2_def)
  qed
  have absq: "\<bar>q\<bar> = of_nat n / a" by (simp add: q_def a_def)
  have q0: "q \<noteq> 0" using n0 l0 by (simp add: q_def)
  have qle: "\<bar>q\<bar> \<le> of_nat n"
    unfolding absq using a1 npos by (simp add: field_simps mult_le_cancel_left1)
  define e where "e = expo q"
  from expo_bounds [OF q0] have lo: "pow2 e \<le> \<bar>q\<bar>" and hi: "\<bar>q\<bar> < pow2 (e + 1)"
    by (simp_all add: e_def)
  have e52: "e \<le> 52"
  proof (rule ccontr)
    assume "\<not> e \<le> 52"
    then have "pow2 53 \<le> pow2 e" by (intro pow2_mono) simp
    with lo qle nlt show False by linarith
  qed
  define e' where "e' = max e (- 1022)"
  have e'52: "e' \<le> 52" using e52 by (simp add: e'_def)
  define N :: int where "N = 2 ^ nat (52 - e')"
  have Npos: "0 < N" by (simp add: N_def)
  define u where "u = pow2 (e' - 52)"
  have upos: "0 < u" by (simp add: u_def)
  have Nu: "of_int N = pow2 (52 - e')" using e'52 by (simp add: N_def pow2_nat)
  have uN: "u * of_int N = 1" using pow2_add [of "e' - 52" "52 - e'"] by (simp add: Nu u_def pow2_def)
  have quot: "q / u = q * of_int N"
  proof -
    have "q / u = q * (u * of_int N) / u" by (simp only: uN mult_1_right)
    also have "\<dots> = q * of_int N" using upos by simp
    finally show ?thesis .
  qed
  \<comment> \<open>the distance of \<open>q\<close> from the integer below it\<close>
  define s :: int where "s = (if 0 < l then int n else - int n)"
  have qa: "q * a = of_int s"
    using l0 by (auto simp add: q_def a_def s_def abs_if)
  have klt: "of_int (k - 1) < q" unfolding k_def by linarith
  have apos: "0 < a" using a1 by simp
  have al: "a = of_int \<bar>l\<bar>" by (simp add: a_def)
  have "of_int (k - 1) * a < q * a" using klt apos by (simp only: mult_less_cancel_right_pos)
  then have "of_int (k - 1) * a < of_int s" by (simp only: qa)
  then have "(of_int ((k - 1) * \<bar>l\<bar>) :: rat) < of_int s" by (simp only: al of_int_mult)
  then have "(k - 1) * \<bar>l\<bar> < s" by (simp only: of_int_less_iff)
  then have "(k - 1) * \<bar>l\<bar> + 1 \<le> s" by simp
  then have "(of_int ((k - 1) * \<bar>l\<bar> + 1) :: rat) \<le> of_int s" by (simp only: of_int_le_iff)
  then have "of_int (k - 1) * a + 1 \<le> of_int s" by (simp only: al of_int_mult of_int_add of_int_1)
  then have stepA: "of_int (k - 1) * a + 1 \<le> q * a" by (simp only: qa)
  have stepB: "a < 2 * of_int N"
  proof (cases "- 1022 \<le> e")
    case True
    then have ee: "e' = e" by (simp add: e'_def)
    have "pow2 e * a \<le> of_nat n" using lo apos by (simp add: absq field_simps)
    then have "pow2 e * a < pow2 53" using nlt by linarith
    then have "pow2 (53 - e) * (pow2 e * a) < pow2 (53 - e) * pow2 53"
      by (intro mult_strict_left_mono) simp_all
    moreover have "pow2 (53 - e) * pow2 e = pow2 53" using pow2_add [of "53 - e" e] by simp
    ultimately have "pow2 53 * a < pow2 (53 - e) * pow2 53" by (simp add: mult.assoc [symmetric])
    then have "a < pow2 (53 - e)" by (simp add: mult.commute [of "pow2 53"])
    moreover have "pow2 (53 - e) = 2 * pow2 (52 - e)" using pow2_add [of 1 "52 - e"] by (simp add: pow2_def)
    ultimately show ?thesis by (simp add: Nu ee)
  next
    case False
    then have ee: "e' = - 1022" by (simp add: e'_def)
    have "pow2 1024 \<le> pow2 1075" by (intro pow2_mono) simp
    moreover have "pow2 1075 = 2 * pow2 1074" using pow2_add [of 1 1074] by (simp add: pow2_def)
    ultimately show ?thesis using lb by (simp add: Nu ee a_def)
  qed
  have half: "of_int ((k - 1) * N) + 1 / 2 < q * of_int N"
  proof -
    have "1 \<le> (q - of_int (k - 1)) * a" using stepA by (simp add: algebra_simps)
    then have "1 / a \<le> q - of_int (k - 1)" using apos by (simp add: field_simps)
    moreover have "1 / 2 < of_int N / a" using stepB apos by (simp add: field_simps)
    moreover have "of_int N / a = (1 / a) * of_int N" by simp
    moreover have "(1 / a) * of_int N \<le> (q - of_int (k - 1)) * of_int N"
      using calculation(1) Npos by (intro mult_right_mono) simp_all
    ultimately have "1 / 2 < (q - of_int (k - 1)) * of_int N" by linarith
    then show ?thesis by (simp add: algebra_simps)
  qed
  define m where "m = rne (q / u)"
  have mlo: "(k - 1) * N < m" unfolding m_def quot using half by (rule rne_gt)
  have mhi: "m \<le> k * N"
  proof -
    have "q \<le> of_int k" unfolding k_def by linarith
    then have "q * of_int N \<le> of_int k * of_int N" using Npos by (intro mult_right_mono) simp_all
    then have "q * of_int N \<le> of_int (k * N)" by simp
    then show ?thesis unfolding m_def quot by (rule rne_upper)
  qed
  define r where "r = of_int m * u"
  have rN: "r * of_int N = of_int m"
  proof -
    have "r * of_int N = of_int m * (u * of_int N)" by (simp only: r_def mult.assoc)
    then show ?thesis by (simp only: uN mult_1_right)
  qed
  have NposR: "(0 :: rat) < of_int N" using Npos by simp
  have rlo: "of_int (k - 1) < r"
  proof -
    have "(of_int ((k - 1) * N) :: rat) < of_int m" using mlo by (simp only: of_int_less_iff)
    then have "of_int (k - 1) * of_int N < r * of_int N" by (simp add: rN)
    then show ?thesis using NposR by (simp only: mult_less_cancel_right_pos)
  qed
  have rhi: "r \<le> of_int k"
  proof -
    have "(of_int m :: rat) \<le> of_int (k * N)" using mhi by (simp only: of_int_le_iff)
    then have "r * of_int N \<le> of_int k * of_int N" by (simp add: rN)
    then show ?thesis using NposR by (simp only: mult_le_cancel_right_pos)
  qed
  have ceil: "\<lceil>r\<rceil> = k" using rlo rhi by (intro ceiling_unique) simp_all
  have kb: "k \<le> int n" "- int n \<le> k"
  proof -
    have "q \<le> of_int (int n)" using qle by simp
    then show "k \<le> int n" unfolding k_def by (simp only: ceiling_le_iff)
    have "of_int (- int n) \<le> q" using qle by simp
    then have "- int n \<le> \<lceil>q\<rceil>" by (simp add: le_ceiling_iff)
    then show "- int n \<le> k" by (simp add: k_def)
  qed
  have rb: "\<bar>r\<bar> < pow2 1024"
  proof -
    have "(of_int k :: rat) \<le> of_int (int n)" using kb(1) by (simp only: of_int_le_iff)
    with rhi have "r \<le> of_int (int n)" by linarith
    moreover have "(of_int (- int n - 1) :: rat) \<le> of_int (k - 1)"
      using kb(2) by (simp only: of_int_le_iff)
    with rlo have "of_int (- int n - 1) < r" by linarith
    ultimately have "\<bar>r\<bar> \<le> of_nat n + 1" by simp
    moreover have "pow2 53 + 1 < pow2 1024" by (simp add: pow2_def)
    ultimately show ?thesis using nlt by linarith
  qed
  have "num_val (js_ceil (fl q)) = Some (of_int k)"
    by (rule num_val_ceil_fl [where r = r and u = u])
       (simp_all add: r_def m_def u_def e'_def e_def q0 rb [unfolded r_def m_def u_def e'_def e_def] ceil [unfolded r_def m_def u_def e'_def e_def])
  then show ?thesis by (simp add: q_def k_def)
qed

section \<open>Pagination\<close>

lemma parseInt_abc: "parseInt ''abc'' = NaN"
  by (simp add: parseInt_def ws_len_def ws_chars_def starts_with_def digit_val_def Let_def)

lemma parseInt_xyz: "parseInt ''xyz'' = NaN"
  by (simp add: parseInt_def ws_len_def ws_chars_def starts_with_def digit_val_def Let_def)

lemma parseInt_10: "parseInt ''10'' = Fin 10"
  using fl_int [of 10]
  by (simp add: parseInt_def ws_len_def ws_chars_def starts_with_def digit_val_def Let_def)

lemma parseInt_1: "parseInt ''1'' = Fin 1"
  using fl_int [of 1]
  by (simp add: parseInt_def ws_len_def ws_chars_def starts_with_def digit_val_def Let_def)

lemma parseInt_0: "parseInt ''0'' = Fin 0"
  by (simp add: parseInt_def ws_len_def ws_chars_def starts_with_def digit_val_def Let_def signed_zero_def)

lemma parseInt_3: "parseInt ''3'' = Fin 3"
  using fl_int [of 3]
  by (simp add: parseInt_def ws_len_def ws_chars_def starts_with_def digit_val_def Let_def)

lemma js_sub_NaN [simp]: "js_sub NaN y = NaN"
  by (simp add: js_sub_def)

lemma js_add_NaN_right [simp]: "js_add x NaN = NaN"
  by (cases x) simp_all

lemma js_mul_NaN [simp]: "js_mul NaN y = NaN" "js_mul x NaN = NaN"
  by (simp_all add: js_mul_def)

lemma js_div_NaN [simp]: "js_div x NaN = NaN"
  by (simp add: js_div_def)

lemma list_skip_NaN: "list_page req = NaN \<or> list_limit req = NaN \<Longrightarrow> list_skip req = NaN"
  by (auto simp add: list_skip_def)


lemma ordersList_admin:
  assumes "user req = Some u" and "role u = Some ''admin''"
  shows "ordersList tz now Order req =
     try_catch
       (await (FindPage (list_query tz now req) (list_skip req) (list_limit req))
          (find_page Order (list_query tz now req) (list_skip req) (list_limit req)) (\<lambda>orders.
        await (CountDocuments (list_query tz now req))
          (countDocuments Order (list_query tz now req)) (\<lambda>totalOrders.
        send 200 (Orders_body orders
          \<lparr>currentPage = list_page req,
           totalPages = js_ceil (js_div (Fin (of_nat totalOrders)) (list_limit req)),
           pg_totalOrders = totalOrders,
           pg_limit = list_limit req\<rparr>))))"
  using assms
  by (simp add: ordersList_def list_query_def list_skip_def list_limit_def list_page_def Let_def)

lemma ordersList_cases:
  assumes "user req = Some u" and "role u = Some ''admin''"
  shows "(\<exists>e. response (ordersList tz now Order req) = server_error e)
       \<or> (\<exists>os n. find_page Order (list_query tz now req) (list_skip req) (list_limit req) = Inr os
              \<and> countDocuments Order (list_query tz now req) = Inr n
              \<and> response (ordersList tz now Order req) =
                  \<lparr>statusCode = 200,
                   body = Orders_body os
                     \<lparr>currentPage = list_page req,
                      totalPages = js_ceil (js_div (Fin (of_nat n)) (list_limit req)),
                      pg_totalOrders = n,
                      pg_limit = list_limit req\<rparr>\<rparr>)"
proof (cases "find_page Order (list_query tz now req) (list_skip req) (list_limit req)")
  case (Inl e)
  then have "response (ordersList tz now Order req) = server_error e"
    by (simp add: ordersList_admin [OF assms])
  then show ?thesis by blast
next
  case (Inr os)
  note f = this
  show ?thesis
  proof (cases "countDocuments Order (list_query tz now req)")
    case (Inl e)
    then have "response (ordersList tz now Order req) = server_error e"
      using f by (simp add: ordersList_admin [OF assms] send_def)
    then show ?thesis by blast
  next
    case (Inr n)
    then show ?thesis using f by (simp add: ordersList_admin [OF assms] send_def)
  qed
qed

lemma ordersList_first_call:
  assumes "user req = Some u" and "role u = Some ''admin''"
  shows "take 1 (calls (ordersList tz now Order req)) =
           [FindPage (list_query tz now req) (list_skip req) (list_limit req)]"
  by (cases "find_page Order (list_query tz now req) (list_skip req) (list_limit req)")
     (simp_all add: ordersList_admin [OF assms])

lemma ordersList_envelope:
  assumes "user req = Some u" and "role u = Some ''admin''"
    and "body (response (ordersList tz now Order req)) = Orders_body os pg"
  shows "countDocuments Order (list_query tz now req) = Inr (pg_totalOrders pg)
       \<and> find_page Order (list_query tz now req) (list_skip req) (list_limit req) = Inr os
       \<and> statusCode (response (ordersList tz now Order req)) = 200
       \<and> currentPage pg = list_page req
       \<and> pg_limit pg = list_limit req
       \<and> totalPages pg = js_ceil (js_div (Fin (of_nat (pg_totalOrders pg))) (list_limit req))"
  using ordersList_cases [OF assms(1,2), of tz now Order] assms(3)
  by (auto simp add: server_error_def)

lemma fl_not_NaN [simp]: "fl q \<noteq> NaN"
  by (simp add: fl_def Let_def)

lemma js_ceil_NaN_iff [simp]: "js_ceil y = NaN \<longleftrightarrow> y = NaN"
  by (cases y) simp_all

lemma js_div_count_NaN_iff:
  "js_div (Fin (of_nat n)) y = NaN \<longleftrightarrow> y = NaN \<or> (n = 0 \<and> is_zero y)"
  by (cases y) (auto simp add: js_div_def signed_inf_def signed_zero_def)

text \<open>
  C9 (as amended). For an admin caller no status of the 400 class is produced: the response
  has status 200 or 500. When \<^verbatim>\<open>parseInt\<close> of \<^verbatim>\<open>page\<close> or of \<^verbatim>\<open>limit\<close> is NaN, the skip value
  handed to the store is NaN. In a response with a pagination object, \<^verbatim>\<open>currentPage\<close> is
  NaN exactly when \<^verbatim>\<open>page\<close> parses to NaN, \<^verbatim>\<open>limit\<close> is NaN exactly when \<^verbatim>\<open>limit\<close> parses to
  NaN, and \<^verbatim>\<open>totalPages\<close> is NaN exactly when \<^verbatim>\<open>limit\<close> parses to NaN, or parses to a zero
  while \<^verbatim>\<open>totalOrders\<close> is 0.
\<close>

theorem non_numeric_page_or_limit:
  assumes "user req = Some u" and "role u = Some ''admin''"
  shows "(statusCode (response (ordersList tz now Order req)) = 200
          \<or> statusCode (response (ordersList tz now Order req)) = 500)
       \<and> (list_page req = NaN \<or> list_limit req = NaN \<longrightarrow>
            take 1 (calls (ordersList tz now Order req)) =
              [FindPage (list_query tz now req) NaN (list_limit req)])
       \<and> (body (response (ordersList tz now Order req)) = Orders_body os pg \<longrightarrow>
            (currentPage pg = NaN \<longleftrightarrow> list_page req = NaN)
          \<and> (pg_limit pg = NaN \<longleftrightarrow> list_limit req = NaN)
          \<and> (totalPages pg = NaN \<longleftrightarrow>
               list_limit req = NaN \<or> (pg_totalOrders pg = 0 \<and> is_zero (list_limit req))))"
proof -
  have 1: "statusCode (response (ordersList tz now Order req)) = 200
          \<or> statusCode (response (ordersList tz now Order req)) = 500"
    using ordersList_cases [OF assms, of tz now Order] by (auto simp add: server_error_def)
  have 2: "list_page req = NaN \<or> list_limit req = NaN \<longrightarrow>
            take 1 (calls (ordersList tz now Order req)) =
              [FindPage (list_query tz now req) NaN (list_limit req)]"
    using ordersList_first_call [OF assms, of tz now Order] list_skip_NaN [of req] by auto
  have 3: "body (response (ordersList tz now Order req)) = Orders_body os pg \<longrightarrow>
            (currentPage pg = NaN \<longleftrightarrow> list_page req = NaN)
          \<and> (pg_limit pg = NaN \<longleftrightarrow> list_limit req = NaN)
          \<and> (totalPages pg = NaN \<longleftrightarrow>
               list_limit req = NaN \<or> (pg_totalOrders pg = 0 \<and> is_zero (list_limit req)))"
  proof
    assume b: "body (response (ordersList tz now Order req)) = Orders_body os pg"
    from ordersList_envelope [OF assms b]
    have p: "currentPage pg = list_page req" and l: "pg_limit pg = list_limit req"
      and t: "totalPages pg = js_ceil (js_div (Fin (of_nat (pg_totalOrders pg))) (list_limit req))"
      by simp_all
    show "(currentPage pg = NaN \<longleftrightarrow> list_page req = NaN)
          \<and> (pg_limit pg = NaN \<longleftrightarrow> list_limit req = NaN)
          \<and> (totalPages pg = NaN \<longleftrightarrow>
               list_limit req = NaN \<or> (pg_totalOrders pg = 0 \<and> is_zero (list_limit req)))"
      by (simp only: p l t js_ceil_NaN_iff js_div_count_NaN_iff simp_thms)
  qed
  from 1 2 3 show ?thesis by (intro conjI)
qed

lemma admin_request [simp]:
  "user (request_as r q) = Some \<lparr>role = Some r\<rparr>" "query (request_as r q) = q"
  by (simp_all add: request_as_def)

lemma example_7days:
  "getDateRange utc_zone example_now (Some ''7days'') = Some 1730023200000"
  by (simp add: getDateRange_def new_Date_def setDate_getDate_minus_def TimeClip_def UTC_def
      LocalTime_def MakeDate_def Day_def TimeWithinDay_def msPerDay_def utc_zone_def example_now_def)

lemma as_int_simps [simp]:
  "as_int NaN = None" "as_int (Fin (of_int k)) = Some k" "as_int (Fin 0) = Some 0"
  "as_int (Fin (numeral w)) = Some (numeral w)" "as_int (Fin 1) = Some 1"
  by (simp_all add: as_int_def)

text \<open>
  C9 as stated fails at \<^verbatim>\<open>page=abc\<close> with the default limit. On a store that accepts the NaN
  skip the response carries \<^verbatim>\<open>limit: 10\<close> and \<^verbatim>\<open>totalPages: 0\<close>, not NaN; on the store over a
  fixed collection, which rejects the NaN skip, the response is the 500 error body and has
  no pagination object at all.
\<close>

theorem non_numeric_page_counterexample:
  "list_page (request_as ''admin'' (no_params\<lparr>q_page := Some ''abc''\<rparr>)) = NaN
   \<and> response (ordersList utc_zone example_now (accepting_any_page (mongo [] example_users))
        (request_as ''admin'' (no_params\<lparr>q_page := Some ''abc''\<rparr>))) =
     \<lparr>statusCode = 200,
      body = Orders_body []
        \<lparr>currentPage = NaN, totalPages = Fin 0, pg_totalOrders = 0, pg_limit = Fin 10\<rparr>\<rparr>
   \<and> response (ordersList utc_zone example_now (mongo [] example_users)
        (request_as ''admin'' (no_params\<lparr>q_page := Some ''abc''\<rparr>))) =
     \<lparr>statusCode = 500,
      body = Error_body ''Server error'' ''skip and limit must be integers''\<rparr>"
  by (simp add: ordersList_def Let_def no_params_def default_to_def list_page_def parseInt_abc
      parseInt_10 example_7days accepting_any_page_def mongo_def matching_def skip_limit_def
      send_def js_div_def signed_zero_def sort_newest_first_def server_error_def)

theorem non_numeric_page_or_limit_witness:
  "take 1 (calls (ordersList utc_zone example_now (accepting_any_page (mongo [] example_users))
        (request_as ''admin'' (no_params\<lparr>q_page := Some ''abc'', q_limit := Some ''xyz''\<rparr>)))) =
     [FindPage \<lparr>createdAt_gte = Some 1730023200000, status_eq = None\<rparr> NaN NaN]
   \<and> response (ordersList utc_zone example_now (accepting_any_page (mongo [] example_users))
        (request_as ''admin'' (no_params\<lparr>q_page := Some ''abc'', q_limit := Some ''xyz''\<rparr>))) =
     \<lparr>statusCode = 200,
      body = Orders_body []
        \<lparr>currentPage = NaN, totalPages = NaN, pg_totalOrders = 0, pg_limit = NaN\<rparr>\<rparr>
   \<and> (totalPages \<lparr>currentPage = NaN, totalPages = NaN, pg_totalOrders = 0, pg_limit = NaN\<rparr> = NaN
        \<longleftrightarrow> list_limit (request_as ''admin'' (no_params\<lparr>q_page := Some ''abc'', q_limit := Some ''xyz''\<rparr>)) = NaN)"
proof -
  let ?req = "request_as ''admin'' (no_params\<lparr>q_page := Some ''abc'', q_limit := Some ''xyz''\<rparr>)"
  let ?db = "accepting_any_page (mongo [] example_users)"
  let ?pg = "\<lparr>currentPage = NaN, totalPages = NaN, pg_totalOrders = 0, pg_limit = NaN\<rparr>"
  have pl: "list_page ?req = NaN" "list_limit ?req = NaN"
    by (simp_all add: list_page_def list_limit_def no_params_def default_to_def parseInt_abc parseInt_xyz)
  have q: "list_query utc_zone example_now ?req = \<lparr>createdAt_gte = Some 1730023200000, status_eq = None\<rparr>"
    by (simp add: list_query_def no_params_def default_to_def example_7days)
  have r: "response (ordersList utc_zone example_now ?db ?req) =
     \<lparr>statusCode = 200, body = Orders_body [] ?pg\<rparr>"
    by (simp add: ordersList_def Let_def no_params_def default_to_def parseInt_abc parseInt_xyz
      example_7days accepting_any_page_def mongo_def matching_def skip_limit_def send_def
      sort_newest_first_def)
  then have b: "body (response (ordersList utc_zone example_now ?db ?req)) = Orders_body [] ?pg"
    by simp
  have adm: "user ?req = Some \<lparr>role = Some ''admin''\<rparr>" "role \<lparr>role = Some ''admin''\<rparr> = Some ''admin''"
    by simp_all
  note th = non_numeric_page_or_limit [OF adm, of utc_zone example_now ?db "[]" ?pg]
  have c: "take 1 (calls (ordersList utc_zone example_now ?db ?req)) =
     [FindPage \<lparr>createdAt_gte = Some 1730023200000, status_eq = None\<rparr> NaN NaN]"
    using th [THEN conjunct2, THEN conjunct1] by (simp add: pl q)
  from th [THEN conjunct2, THEN conjunct2, THEN mp, OF b]
  have d: "totalPages ?pg = NaN \<longleftrightarrow> list_limit ?req = NaN \<or> (pg_totalOrders ?pg = 0 \<and> is_zero (list_limit ?req))"
    by (rule conjunct2 [THEN conjunct2])
  then have e: "totalPages ?pg = NaN \<longleftrightarrow> list_limit ?req = NaN" by (simp add: pl)
  from c r e show ?thesis by (intro conjI)
qed

lemma fl_Fin_form:
  assumes "fl q = Fin r" and "q \<noteq> 0"
  shows "r = of_int (rne (q / pow2 (max (expo q) (- 1022) - 52))) * pow2 (max (expo q) (- 1022) - 52)"
  using assms by (simp add: fl_def Let_def split: if_splits)

lemma fl_of_int_is_int:
  assumes "fl (of_int n) = Fin r"
  shows "\<exists>l. r = of_int l"
proof (cases "\<bar>n\<bar> \<le> 2 ^ 53")
  case True
  from fl_int [OF True] assms have "r = of_int n" by simp
  then show ?thesis by blast
next
  case False
  define q :: rat where "q = of_int n"
  have big: "pow2 53 < \<bar>q\<bar>"
  proof -
    have "2 ^ 53 < \<bar>n\<bar>" using False by simp
    then have "(of_int (2 ^ 53) :: rat) < of_int \<bar>n\<bar>" by (simp only: of_int_less_iff)
    then show ?thesis by (simp add: q_def pow2_def)
  qed
  have q0: "q \<noteq> 0"
  proof
    assume "q = 0"
    with big have "pow2 53 < 0" by simp
    with pow2_pos [of 53] show False by linarith
  qed
  from expo_bounds [OF q0] have hi: "\<bar>q\<bar> < pow2 (expo q + 1)" by simp
  have e: "53 \<le> expo q"
  proof (rule ccontr)
    assume "\<not> 53 \<le> expo q"
    then have "pow2 (expo q + 1) \<le> pow2 53" by (intro pow2_mono) simp
    with hi big show False by linarith
  qed
  then have mx: "max (expo q) (- 1022) = expo q" by simp
  have u: "pow2 (expo q - 52) = of_int (2 ^ nat (expo q - 52))" using e by (simp add: pow2_nat)
  from fl_Fin_form [OF assms [folded q_def] q0]
  have "r = of_int (rne (q / pow2 (expo q - 52)) * 2 ^ nat (expo q - 52))"
    by (simp only: mx u of_int_mult)
  then show ?thesis by blast
qed

lemma parseInt_shape:
  "parseInt s = NaN \<or> (\<exists>neg. parseInt s = signed_zero neg) \<or> (\<exists>n. parseInt s = fl (of_int n))"
proof -
  define S where "S = trimStart (length s) s"
  define neg where "neg = starts_with ''-'' S"
  define S1 where "S1 = (if starts_with ''+'' S \<or> starts_with ''-'' S then drop 1 S else S)"
  define hex where "hex = (starts_with ''0x'' S1 \<or> starts_with ''0X'' S1)"
  define R :: int where "R = (if hex then 16 else 10)"
  define S2 where "S2 = (if hex then drop 2 S1 else S1)"
  have p: "parseInt s =
      (case read_digits R 0 S2 of
         None \<Rightarrow> NaN
       | Some mathInt \<Rightarrow>
           if mathInt = 0 then signed_zero neg
           else fl ((if neg then - 1 else 1) * of_int mathInt))"
    unfolding parseInt_def S_def neg_def S1_def hex_def R_def S2_def Let_def ..
  show ?thesis
  proof (cases "read_digits R 0 S2")
    case None
    then show ?thesis by (simp add: p)
  next
    case (Some m)
    show ?thesis
    proof (cases "m = 0")
      case True
      then have "parseInt s = signed_zero neg" by (simp add: p Some)
      then show ?thesis by blast
    next
      case False
      then have "parseInt s = fl (of_int (if neg then - m else m))" by (simp add: p Some)
      then show ?thesis by blast
    qed
  qed
qed

lemma parseInt_is_int:
  assumes "parseInt s = Fin v"
  shows "\<exists>l. v = of_int l"
proof -
  from parseInt_shape [of s] assms
  consider neg where "signed_zero neg = Fin v" | n where "fl (of_int n) = Fin v"
    by auto
  then show ?thesis
  proof cases
    case 1
    then have "v = of_int 0" by (simp add: signed_zero_def split: if_splits)
    then show ?thesis by blast
  next
    case 2
    then show ?thesis by (rule fl_of_int_is_int)
  qed
qed

lemma parseInt_bound:
  assumes "parseInt s = Fin v"
  shows "\<bar>v\<bar> < pow2 1024"
proof -
  from parseInt_shape [of s] assms
  consider neg where "signed_zero neg = Fin v" | n where "fl (of_int n) = Fin v"
    by auto
  then show ?thesis
  proof cases
    case 1
    then have "v = 0" by (simp add: signed_zero_def split: if_splits)
    then show ?thesis by simp
  next
    case 2
    then show ?thesis by (rule fl_Fin_bound)
  qed
qed

lemma ceil_div_count:
  fixes n :: nat
  assumes "parseInt s = Fin v" and "v \<noteq> 0" and "n < 2 ^ 53"
  shows "num_val (js_ceil (js_div (Fin (of_nat n)) (Fin v))) = Some (of_int \<lceil>of_nat n / v\<rceil>)"
proof -
  from parseInt_is_int [OF assms(1)] obtain l where l: "v = of_int l" by blast
  with assms(2) have l0: "l \<noteq> 0" by auto
  from parseInt_bound [OF assms(1)] have lb: "\<bar>of_int l :: rat\<bar> < pow2 1024" by (simp add: l)
  show ?thesis
  proof (cases "n = 0")
    case True
    then show ?thesis using assms(2) by (simp add: js_div_def signed_zero_def)
  next
    case False
    then have "js_div (Fin (of_nat n)) (Fin v) = fl (of_nat n / v)"
      using assms(2) by (simp add: js_div_def)
    then show ?thesis using ceil_fl_div [of n l] False assms(3) l0 lb by (simp add: l)
  qed
qed

lemma js_div_count_zero:
  "js_div (Fin (of_nat n)) (Fin 0) = (if n = 0 then NaN else PInf)"
  "js_div (Fin (of_nat n)) NegZero = (if n = 0 then NaN else NInf)"
  "js_div (Fin (of_nat n)) PInf = Fin 0"
  "js_div (Fin (of_nat n)) NInf = NegZero"
  by (simp_all add: js_div_def signed_inf_def signed_zero_def)

text \<open>
  C3 (as amended). For an admin caller, when the handler sends a pagination object:
  \<^verbatim>\<open>totalOrders\<close> is the store's count, and \<^verbatim>\<open>currentPage\<close> and \<^verbatim>\<open>limit\<close> are \<^verbatim>\<open>parseInt\<close> of
  the requested values. When \<^verbatim>\<open>limit\<close> parses to a finite number \<open>v\<close> other than zero (the
  count being below \<open>2^53\<close>), \<^verbatim>\<open>totalPages\<close> is the ceiling of \<^verbatim>\<open>totalOrders\<close> / \<open>v\<close>, so 0
  when \<^verbatim>\<open>totalOrders\<close> is 0. When \<^verbatim>\<open>limit\<close> parses to \<open>+0\<close>, \<^verbatim>\<open>totalPages\<close> is NaN for
  \<^verbatim>\<open>totalOrders\<close> 0 and \<open>+Infinity\<close> otherwise; when it parses to \<open>-0\<close>, NaN and \<open>-Infinity\<close>.
  When it parses to NaN, \<^verbatim>\<open>totalPages\<close> is NaN; to \<open>+Infinity\<close>, \<open>+0\<close>; to \<open>-Infinity\<close>, \<open>-0\<close>.
\<close>

theorem totalPages_is_ceiling:
  assumes "user req = Some u" and "role u = Some ''admin''"
    and "body (response (ordersList tz now Order req)) = Orders_body os pg"
  shows "countDocuments Order (list_query tz now req) = Inr (pg_totalOrders pg)
       \<and> currentPage pg = list_page req
       \<and> pg_limit pg = list_limit req
       \<and> (list_limit req = Fin v \<and> v \<noteq> 0 \<and> pg_totalOrders pg < 2 ^ 53 \<longrightarrow>
            num_val (totalPages pg) = Some (of_int \<lceil>of_nat (pg_totalOrders pg) / v\<rceil>)
          \<and> (pg_totalOrders pg = 0 \<longrightarrow> num_val (totalPages pg) = Some 0))
       \<and> (list_limit req = Fin 0 \<longrightarrow>
            totalPages pg = (if pg_totalOrders pg = 0 then NaN else PInf))
       \<and> (list_limit req = NegZero \<longrightarrow>
            totalPages pg = (if pg_totalOrders pg = 0 then NaN else NInf))
       \<and> (list_limit req = NaN \<longrightarrow> totalPages pg = NaN)
       \<and> (list_limit req = PInf \<longrightarrow> totalPages pg = Fin 0)
       \<and> (list_limit req = NInf \<longrightarrow> totalPages pg = NegZero)"
proof -
  from ordersList_envelope [OF assms(1-3)]
  have c: "countDocuments Order (list_query tz now req) = Inr (pg_totalOrders pg)"
    and p: "currentPage pg = list_page req" and l: "pg_limit pg = list_limit req"
    and t: "totalPages pg = js_ceil (js_div (Fin (of_nat (pg_totalOrders pg))) (list_limit req))"
    by simp_all
  have n: "list_limit req = Fin v \<and> v \<noteq> 0 \<and> pg_totalOrders pg < 2 ^ 53 \<longrightarrow>
            num_val (totalPages pg) = Some (of_int \<lceil>of_nat (pg_totalOrders pg) / v\<rceil>)
          \<and> (pg_totalOrders pg = 0 \<longrightarrow> num_val (totalPages pg) = Some 0)"
  proof (intro impI, elim conjE)
    assume lv: "list_limit req = Fin v" and v: "v \<noteq> 0" and b: "pg_totalOrders pg < 2 ^ 53"
    have "parseInt (default_to ''10'' (q_limit (query req))) = Fin v"
      using lv by (simp add: list_limit_def)
    from ceil_div_count [OF this v b]
    have "num_val (totalPages pg) = Some (of_int \<lceil>of_nat (pg_totalOrders pg) / v\<rceil>)"
      by (simp add: t lv)
    then show "num_val (totalPages pg) = Some (of_int \<lceil>of_nat (pg_totalOrders pg) / v\<rceil>)
          \<and> (pg_totalOrders pg = 0 \<longrightarrow> num_val (totalPages pg) = Some 0)"
      by simp
  qed
  have z: "list_limit req = Fin 0 \<longrightarrow>
            totalPages pg = (if pg_totalOrders pg = 0 then NaN else PInf)"
    by (simp add: t js_div_count_zero)
  have nz: "list_limit req = NegZero \<longrightarrow>
            totalPages pg = (if pg_totalOrders pg = 0 then NaN else NInf)"
    by (simp add: t js_div_count_zero)
  have nan: "list_limit req = NaN \<longrightarrow> totalPages pg = NaN"
    by (simp add: t)
  have pinf: "list_limit req = PInf \<longrightarrow> totalPages pg = Fin 0"
    by (simp add: t js_div_count_zero)
  have ninf: "list_limit req = NInf \<longrightarrow> totalPages pg = NegZero"
    by (simp add: t js_div_count_zero)
  from c p l n z nz nan pinf ninf show ?thesis by (intro conjI)
qed


lemma parseInt_2: "parseInt ''2'' = Fin 2"
  using fl_int [of 2]
  by (simp add: parseInt_def ws_len_def ws_chars_def starts_with_def digit_val_def Let_def)

lemma js_sub_same [simp]: "js_sub (Fin a) (Fin a) = Fin 0"
  by (simp add: js_sub_def)

lemma js_mul_zero_left [simp]: "0 \<le> b \<Longrightarrow> js_mul (Fin 0) (Fin b) = Fin 0"
  by (simp add: js_mul_def signed_zero_def)

text \<open>
  C3 as stated fails for \<^verbatim>\<open>limit=0\<close>: on an empty collection \<^verbatim>\<open>totalOrders\<close> is 0 and
  \<^verbatim>\<open>totalPages\<close> is \<^verbatim>\<open>Math.ceil(0 / 0)\<close>, NaN and not 0.
\<close>

theorem totalPages_limit_zero_counterexample:
  "response (ordersList utc_zone example_now (mongo [] example_users)
        (request_as ''admin'' (no_params\<lparr>q_page := Some ''1'', q_limit := Some ''0''\<rparr>))) =
     \<lparr>statusCode = 200,
      body = Orders_body []
        \<lparr>currentPage = Fin 1, totalPages = NaN, pg_totalOrders = 0, pg_limit = Fin 0\<rparr>\<rparr>"
  by (simp add: ordersList_def Let_def no_params_def default_to_def parseInt_1 parseInt_0
      example_7days mongo_def matching_def skip_limit_def send_def js_div_def
      sort_newest_first_def)

lemma parseInt_minus_0: "parseInt ''-0'' = NegZero"
  by (simp add: parseInt_def ws_len_def ws_chars_def starts_with_def digit_val_def Let_def signed_zero_def)

lemma as_int_NegZero [simp]: "as_int NegZero = Some 0"
  by (simp add: as_int_def)

lemma example_page_any_limit:
  assumes "parseInt lm = L" and "as_int L = Some 0"
    and "js_mul (Fin 0) L = L \<or> js_mul (Fin 0) L = Fin 0"
  shows "\<exists>os. body (response (ordersList utc_zone example_now (mongo example_orders example_users)
        (request_as ''admin'' (no_params\<lparr>q_page := Some ''1'', q_limit := Some lm\<rparr>)))) =
       Orders_body os
         \<lparr>currentPage = Fin 1,
          totalPages = js_ceil (js_div (Fin (of_nat 3)) L),
          pg_totalOrders = 3, pg_limit = L\<rparr>"
proof -
  have sk: "as_int (js_mul (Fin 0) L) = Some 0" using assms(2,3) by auto
  show ?thesis
    by (simp add: ordersList_def Let_def no_params_def default_to_def parseInt_1 assms(1,2) sk
        example_7days mongo_def matching_def skip_limit_def send_def)
       (simp add: example_orders_def matches_def)
qed

theorem totalPages_is_ceiling_witness:
  "(\<exists>os pg. body (response (ordersList utc_zone example_now (mongo example_orders example_users)
        (request_as ''admin'' (no_params\<lparr>q_page := Some ''1'', q_limit := Some ''2''\<rparr>)))) =
       Orders_body os pg
     \<and> length os = 2
     \<and> pg_totalOrders pg = 3
     \<and> num_val (totalPages pg) = Some 2
     \<and> currentPage pg = Fin 1
     \<and> pg_limit pg = Fin 2)
   \<and> (\<exists>os pg. body (response (ordersList utc_zone example_now (mongo example_orders example_users)
        (request_as ''admin'' (no_params\<lparr>q_page := Some ''1'', q_limit := Some ''0''\<rparr>)))) =
       Orders_body os pg
     \<and> pg_totalOrders pg = 3 \<and> pg_limit pg = Fin 0 \<and> totalPages pg = PInf)
   \<and> (\<exists>os pg. body (response (ordersList utc_zone example_now (mongo example_orders example_users)
        (request_as ''admin'' (no_params\<lparr>q_page := Some ''1'', q_limit := Some ''-0''\<rparr>)))) =
       Orders_body os pg
     \<and> pg_totalOrders pg = 3 \<and> pg_limit pg = NegZero \<and> totalPages pg = NInf)"
proof -
  let ?db = "mongo example_orders example_users"
  let ?u = "\<lparr>role = Some ''admin''\<rparr>"
  let ?req = "request_as ''admin'' (no_params\<lparr>q_page := Some ''1'', q_limit := Some ''2''\<rparr>)"
  let ?out = "ordersList utc_zone example_now ?db ?req"
  have pl: "list_page ?req = Fin 1" "list_limit ?req = Fin 2"
    by (simp_all add: list_page_def list_limit_def no_params_def default_to_def parseInt_1 parseInt_2)
  have "\<exists>os pg. body (response ?out) = Orders_body os pg \<and> length os = 2 \<and> pg_totalOrders pg = 3"
    by (simp add: ordersList_def Let_def no_params_def default_to_def parseInt_1 parseInt_2
        example_7days mongo_def matching_def matches_def skip_limit_def send_def
        sort_newest_first_def example_orders_def)
  then obtain os pg where b: "body (response ?out) = Orders_body os pg"
    and n: "length os = 2" "pg_totalOrders pg = 3" by blast
  have c: "\<lceil>(3 :: rat) / 2\<rceil> = 2" by (rule ceiling_unique) simp_all
  from totalPages_is_ceiling [of ?req ?u utc_zone example_now ?db os pg 2]
  have "num_val (totalPages pg) = Some 2 \<and> currentPage pg = Fin 1 \<and> pg_limit pg = Fin 2"
    using b n pl c by simp
  with b n have 1: "\<exists>os pg. body (response ?out) = Orders_body os pg
     \<and> length os = 2 \<and> pg_totalOrders pg = 3 \<and> num_val (totalPages pg) = Some 2
     \<and> currentPage pg = Fin 1 \<and> pg_limit pg = Fin 2" by blast
  let ?r0 = "request_as ''admin'' (no_params\<lparr>q_page := Some ''1'', q_limit := Some ''0''\<rparr>)"
  have l0: "list_limit ?r0 = Fin 0"
    by (simp add: list_limit_def no_params_def default_to_def parseInt_0)
  from example_page_any_limit [OF parseInt_0] obtain os0 where
    b0: "body (response (ordersList utc_zone example_now ?db ?r0)) =
       Orders_body os0 \<lparr>currentPage = Fin 1, totalPages = js_ceil (js_div (Fin (of_nat 3)) (Fin 0)),
          pg_totalOrders = 3, pg_limit = Fin 0\<rparr>"
    by (auto simp add: js_mul_def signed_zero_def)
  from totalPages_is_ceiling [of ?r0 ?u utc_zone example_now ?db os0 _ 0, OF _ _ b0]
  have "totalPages \<lparr>currentPage = Fin 1, totalPages = js_ceil (js_div (Fin (of_nat 3)) (Fin 0)),
          pg_totalOrders = 3, pg_limit = Fin 0\<rparr> = PInf"
    using l0 by simp
  with b0 have 2: "\<exists>os pg. body (response (ordersList utc_zone example_now ?db ?r0)) = Orders_body os pg
     \<and> pg_totalOrders pg = 3 \<and> pg_limit pg = Fin 0 \<and> totalPages pg = PInf"
    by force
  let ?rm = "request_as ''admin'' (no_params\<lparr>q_page := Some ''1'', q_limit := Some ''-0''\<rparr>)"
  have lm: "list_limit ?rm = NegZero"
    by (simp add: list_limit_def no_params_def default_to_def parseInt_minus_0)
  from example_page_any_limit [OF parseInt_minus_0] obtain osm where
    bm: "body (response (ordersList utc_zone example_now ?db ?rm)) =
       Orders_body osm \<lparr>currentPage = Fin 1, totalPages = js_ceil (js_div (Fin (of_nat 3)) NegZero),
          pg_totalOrders = 3, pg_limit = NegZero\<rparr>"
    by (auto simp add: js_mul_def signed_zero_def)
  from totalPages_is_ceiling [of ?rm ?u utc_zone example_now ?db osm _ 0, OF _ _ bm]
  have "totalPages \<lparr>currentPage = Fin 1, totalPages = js_ceil (js_div (Fin (of_nat 3)) NegZero),
          pg_totalOrders = 3, pg_limit = NegZero\<rparr> = NInf"
    using lm by simp
  with bm have 3: "\<exists>os pg. body (response (ordersList utc_zone example_now ?db ?rm)) = Orders_body os pg
     \<and> pg_totalOrders pg = 3 \<and> pg_limit pg = NegZero \<and> totalPages pg = NInf"
    by force
  from 1 2 3 show ?thesis by (intro conjI)
qed

section \<open>The listed page\<close>

lemma mongo_sel [simp]:
  "countDocuments (mongo docs users) q = map_sum id length (matching q docs)"
  "aggregate_total (mongo docs users) q = map_sum id group_total (matching q docs)"
  "distinct_user_id (mongo docs users) q = map_sum id (\<lambda>ms. remdups (map user_id ms)) (matching q docs)"
  "aggregate_by_status (mongo docs users) q = map_sum id group_by_status (matching q docs)"
  "aggregate_by_day (mongo docs users) q = (case matching q docs of Inl e \<Rightarrow> Inl e | Inr ms \<Rightarrow> group_by_day ms)"
  "find_page (mongo docs users) q skip lmt =
     (case matching q docs of
        Inl e \<Rightarrow> Inl e
      | Inr ms \<Rightarrow> map_sum id (map (populate users)) (skip_limit skip lmt (sort_newest_first ms)))"
  by (simp_all add: mongo_def)

lemma skip_limit_int:
  assumes "0 \<le> s" and "0 < l"
  shows "skip_limit (Fin (of_int s)) (Fin (of_int l)) xs = Inr (take (nat l) (drop (nat s) xs))"
  using assms by (simp add: skip_limit_def)

lemma list_skip_exact:
  assumes "list_page req = Fin (of_int p)" and "list_limit req = Fin (of_int l)"
    and "1 \<le> p" and "1 \<le> l" and "(p - 1) * l \<le> 2 ^ 53"
  shows "list_skip req = Fin (of_int ((p - 1) * l))"
proof (cases "p = 1")
  case True
  then show ?thesis using assms by (simp add: list_skip_def)
next
  case False
  with assms(3) have p: "1 \<le> p - 1" by simp
  have "p - 1 \<le> (p - 1) * l" using p assms(4) by (simp add: mult_le_cancel_left1)
  with assms(5) have "p - 1 \<le> 2 ^ 53" by linarith
  with p have "\<bar>p - 1\<bar> \<le> 2 ^ 53" by simp
  from fl_int [OF this] have sub: "js_sub (Fin (of_int p)) (Fin 1) = Fin (of_int (p - 1))"
    using False by (simp add: js_sub_def)
  have "0 < (p - 1) * l" using p assms(4) by simp
  with assms(5) have "\<bar>(p - 1) * l\<bar> \<le> 2 ^ 53" by simp
  from fl_int [OF this] have "js_mul (Fin (of_int (p - 1))) (Fin (of_int l)) = Fin (of_int ((p - 1) * l))"
    using p assms(4) by (simp add: js_mul_def)
  then show ?thesis using assms(1,2) sub by (simp add: list_skip_def)
qed

lemma populate_cong:
  assumes "map (\<lambda>u. (uid u, name u, email u)) users = map (\<lambda>u. (uid u, name u, email u)) users'"
  shows "populate users d = populate users' d"
proof -
  have "map_option (\<lambda>u. \<lparr>pu_id = uid u, pu_name = name u, pu_email = email u\<rparr>)
          (find (\<lambda>u. uid u = user_id d) users)
      = map_option (\<lambda>u. \<lparr>pu_id = uid u, pu_name = name u, pu_email = email u\<rparr>)
          (find (\<lambda>u. uid u = user_id d) users')"
    using assms
  proof (induction users arbitrary: users')
    case Nil
    then show ?case by simp
  next
    case (Cons a users)
    then obtain b rest where u': "users' = b # rest" by (cases users') auto
    with Cons.prems have ab: "uid a = uid b" "name a = name b" "email a = email b"
      and r: "map (\<lambda>u. (uid u, name u, email u)) users = map (\<lambda>u. (uid u, name u, email u)) rest"
      by simp_all
    from Cons.IH [OF r] show ?case by (simp add: u' ab)
  qed
  then show ?thesis by (simp add: populate_def)
qed

lemma mongo_cong:
  assumes "map (\<lambda>u. (uid u, name u, email u)) users = map (\<lambda>u. (uid u, name u, email u)) users'"
  shows "mongo docs users = mongo docs users'"
proof -
  have eq: "populate users = populate users'" using populate_cong [OF assms] by (rule ext)
  show ?thesis unfolding mongo_def by (simp only: eq)
qed

lemma newest_first_sorted:
  "sorted_wrt (\<lambda>a b. createdAt b \<le> createdAt a) (sort_newest_first ms)"
proof -
  have "sorted (map (\<lambda>d. - createdAt d) (sort_newest_first ms))"
    by (simp add: sort_newest_first_def)
  then show ?thesis by (simp add: sorted_wrt_map)
qed

lemma newest_first_perm:
  "set (sort_newest_first ms) = set ms" "length (sort_newest_first ms) = length ms"
  by (simp_all add: sort_newest_first_def)


lemma ordersList_mongo_page:
  assumes adm: "user req = Some u" "role u = Some ''admin''"
    and m: "matching (list_query tz now req) docs = Inr ms"
    and pl: "list_page req = Fin (of_int p)" "list_limit req = Fin (of_int l)"
    and b: "1 \<le> p" "1 \<le> l" "(p - 1) * l \<le> 2 ^ 53"
  shows "response (ordersList tz now (mongo docs users) req) =
           \<lparr>statusCode = 200,
            body = Orders_body
              (map (populate users) (take (nat l) (drop (nat ((p - 1) * l)) (sort_newest_first ms))))
              \<lparr>currentPage = Fin (of_int p),
               totalPages = js_ceil (js_div (Fin (of_nat (length ms))) (Fin (of_int l))),
               pg_totalOrders = length ms,
               pg_limit = Fin (of_int l)\<rparr>\<rparr>"
proof -
  have sk: "list_skip req = Fin (of_int ((p - 1) * l))" by (rule list_skip_exact [OF pl b])
  have nn: "0 \<le> (p - 1) * l" using b by simp
  have lpos: "0 < l" using b by simp
  have fp: "find_page (mongo docs users) (list_query tz now req)
              (Fin (of_int ((p - 1) * l))) (Fin (of_int l)) =
            Inr (map (populate users) (take (nat l) (drop (nat ((p - 1) * l)) (sort_newest_first ms))))"
    unfolding mongo_sel m skip_limit_int [OF nn lpos] by simp
  have r: "response (ordersList tz now (mongo docs users) req) =
      (case snd (await (FindPage (list_query tz now req) (Fin (of_int ((p - 1) * l))) (Fin (of_int l)))
          (Inr (map (populate users) (take (nat l) (drop (nat ((p - 1) * l)) (sort_newest_first ms))))
             :: string + populated_user option order list)
          (\<lambda>orders.
        await (CountDocuments (list_query tz now req))
          (countDocuments (mongo docs users) (list_query tz now req)) (\<lambda>totalOrders.
        send 200 (Orders_body orders
          \<lparr>currentPage = Fin (of_int p),
           totalPages = js_ceil (js_div (Fin (of_nat totalOrders)) (Fin (of_int l))),
           pg_totalOrders = totalOrders,
           pg_limit = Fin (of_int l)\<rparr>)))) of Inl e \<Rightarrow> server_error e | Inr r \<Rightarrow> r)"
    by (simp only: ordersList_admin [OF adm] sk pl fp try_catch_response)
  show ?thesis unfolding r by (simp add: m send_def)
qed



lemma example_list_query_params:
  "list_query utc_zone example_now (request_as r (no_params\<lparr>q_page := pg, q_limit := lm\<rparr>)) =
     \<lparr>createdAt_gte = Some 1730023200000, status_eq = None\<rparr>"
  by (simp add: list_query_def no_params_def default_to_def example_7days)

lemma example_25_matching:
  "matching \<lparr>createdAt_gte = Some 1730023200000, status_eq = None\<rparr> example_25 = Inr example_25"
  by (simp add: matching_def matches_def example_25_def filter_map comp_def)

lemma example_sorted:
  "sort_newest_first example_orders =
     [example_orders ! 2, example_orders ! 0, example_orders ! 1]"
  by (simp add: sort_newest_first_def example_orders_def)

lemma example_length: "length example_orders = 3"
  by (simp add: example_orders_def)

lemma example_populated:
  "populate example_users (example_orders ! Suc 0) =
     \<lparr>order_id = 2,
      user_id = Some \<lparr>pu_id = 7, pu_name = ''Ann'', pu_email = ''ann@example.org''\<rparr>,
      total = Fin 5, status = ''Delivered'', createdAt = 1730500000000\<rparr>"
  by (simp add: example_orders_def example_users_def populate_def)


section \<open>The summary\<close>

lemma summary_admin:
  assumes "user req = Some u" and "role u = Some ''admin''"
  shows "summary tz now Order req =
     try_catch
       (await (CountDocuments (range_query tz now req))
          (countDocuments Order (range_query tz now req)) (\<lambda>totalOrders.
        await (AggregateTotal (range_query tz now req))
          (aggregate_total Order (range_query tz now req)) (\<lambda>revenueResult.
        await (DistinctUserId (range_query tz now req))
          (distinct_user_id Order (range_query tz now req)) (\<lambda>activeUsers.
        await (AggregateByStatus (range_query tz now req))
          (aggregate_by_status Order (range_query tz now req)) (\<lambda>statusBreakdown.
        send 200 (Summary_body
          \<lparr>totalOrders = totalOrders,
           totalRevenue = parseFloat (toFixed2 (case revenueResult of [] \<Rightarrow> Fin 0 | r # _ \<Rightarrow> r)),
           activeUsers = length activeUsers\<rparr>
          \<lparr>completed = status_count ''Delivered'' statusBreakdown, cancelled = 0,
           placed = status_count ''Placed'' statusBreakdown,
           preparing = status_count ''Preparing'' statusBreakdown\<rparr>))))))"
  using assms by (simp add: summary_def range_query_def Let_def)

lemma guard_body:
  "body (response (try_catch (admin_guard req rest))) = b \<Longrightarrow>
   (\<forall>x y. b \<noteq> Message_body x \<and> b \<noteq> Error_body x y) \<Longrightarrow>
   \<exists>u. user req = Some u \<and> role u = Some ''admin''"
  by (cases "user req")
     (auto simp add: admin_guard_def throw_def send_def server_error_def split: if_splits)

lemma summary_body:
  assumes "body (response (summary tz now Order req)) = Summary_body s os"
  shows "\<exists>n rs us sb.
           countDocuments Order (range_query tz now req) = Inr n
         \<and> aggregate_total Order (range_query tz now req) = Inr rs
         \<and> distinct_user_id Order (range_query tz now req) = Inr us
         \<and> aggregate_by_status Order (range_query tz now req) = Inr sb
         \<and> s = \<lparr>totalOrders = n,
                 totalRevenue = parseFloat (toFixed2 (case rs of [] \<Rightarrow> Fin 0 | r # _ \<Rightarrow> r)),
                 activeUsers = length us\<rparr>
         \<and> os = \<lparr>completed = status_count ''Delivered'' sb, cancelled = 0,
                  placed = status_count ''Placed'' sb,
                  preparing = status_count ''Preparing'' sb\<rparr>"
proof -
  from assms have "\<exists>u. user req = Some u \<and> role u = Some ''admin''"
    unfolding summary_def by (rule guard_body) simp
  then obtain u where adm: "user req = Some u" "role u = Some ''admin''" by blast
  note eq = assms [unfolded summary_admin [OF adm]]
  show ?thesis
  proof (cases "countDocuments Order (range_query tz now req)")
    case (Inl e)
    with eq show ?thesis by (simp add: server_error_def)
  next
    case n: (Inr n)
    show ?thesis
    proof (cases "aggregate_total Order (range_query tz now req)")
      case (Inl e)
      with eq n show ?thesis by (simp add: server_error_def)
    next
      case rs: (Inr rs)
      show ?thesis
      proof (cases "distinct_user_id Order (range_query tz now req)")
        case (Inl e)
        with eq n rs show ?thesis by (simp add: server_error_def)
      next
        case us: (Inr us)
        show ?thesis
        proof (cases "aggregate_by_status Order (range_query tz now req)")
          case (Inl e)
          with eq n rs us show ?thesis by (simp add: server_error_def)
        next
          case sb: (Inr sb)
          with eq n rs us show ?thesis by (simp add: send_def)
        qed
      qed
    qed
  qed
qed

lemma find_keyed:
  "find (\<lambda>s. fst s = key) (map (\<lambda>s. (s, g s)) ks) =
     (if key \<in> set ks then Some (key, g key) else None)"
  by (induction ks) auto

lemma status_count_group:
  "status_count key (group_by_status ms) = length (filter (\<lambda>d. status d = key) ms)"
proof (cases "key \<in> set (map status ms)")
  case True
  then show ?thesis by (simp add: status_count_def group_by_status_def find_keyed)
next
  case False
  then have "filter (\<lambda>d. status d = key) ms = []" by (auto simp add: filter_empty_conv)
  with False show ?thesis by (simp add: status_count_def group_by_status_def find_keyed)
qed

lemma three_counts:
  assumes "a \<noteq> b" and "a \<noteq> c" and "b \<noteq> c"
  shows "length (filter (\<lambda>d. status d = a) ms) + length (filter (\<lambda>d. status d = b) ms)
       + length (filter (\<lambda>d. status d = c) ms) \<le> length ms"
  using assms by (induction ms) auto

text \<open>
  C6. In every summary response \<^verbatim>\<open>cancelled\<close> is 0, whatever the store returns. On a store
  over a fixed collection, \<^verbatim>\<open>completed + placed + preparing\<close> is at most \<^verbatim>\<open>totalOrders\<close>.
\<close>

theorem status_counts_bounded:
  "(body (response (summary tz now Order req)) = Summary_body s os \<longrightarrow> cancelled os = 0)
   \<and> (body (response (summary tz now (mongo docs users) req)) = Summary_body s' os' \<longrightarrow>
        completed os' + placed os' + preparing os' \<le> totalOrders s' \<and> cancelled os' = 0)"
proof -
  have 1: "body (response (summary tz now Order req)) = Summary_body s os \<longrightarrow> cancelled os = 0"
    using summary_body [of tz now Order req s os] by auto
  have 2: "body (response (summary tz now (mongo docs users) req)) = Summary_body s' os' \<longrightarrow>
        completed os' + placed os' + preparing os' \<le> totalOrders s' \<and> cancelled os' = 0"
  proof
    assume b: "body (response (summary tz now (mongo docs users) req)) = Summary_body s' os'"
    from summary_body [OF b] obtain n rs us sb where
      n: "countDocuments (mongo docs users) (range_query tz now req) = Inr n"
      and sb: "aggregate_by_status (mongo docs users) (range_query tz now req) = Inr sb"
      and s: "totalOrders s' = n"
      and os: "completed os' = status_count ''Delivered'' sb" "cancelled os' = 0"
        "placed os' = status_count ''Placed'' sb" "preparing os' = status_count ''Preparing'' sb"
      by auto
    from n obtain ms where ms: "matching (range_query tz now req) docs = Inr ms" and len: "n = length ms"
      by (cases "matching (range_query tz now req) docs") auto
    from sb ms have g: "sb = group_by_status ms" by simp
    have "status_count ''Delivered'' sb + status_count ''Placed'' sb + status_count ''Preparing'' sb
        \<le> length ms"
      unfolding g status_count_group by (rule three_counts) simp_all
    then show "completed os' + placed os' + preparing os' \<le> totalOrders s' \<and> cancelled os' = 0"
      by (simp add: os s len)
  qed
  from 1 2 show ?thesis by simp
qed

lemma example_summary:
  "\<exists>rev. response (summary utc_zone example_now (mongo example_orders example_users)
        (request_as ''admin'' no_params)) =
     \<lparr>statusCode = 200,
      body = Summary_body \<lparr>totalOrders = 3, totalRevenue = rev, activeUsers = 2\<rparr>
        \<lparr>completed = 1, cancelled = 0, placed = 2, preparing = 0\<rparr>\<rparr>"
  by (simp add: summary_admin example_range_query example_matching send_def)
     (simp add: example_orders_def group_by_status_def status_count_def)

theorem status_counts_bounded_witness:
  "\<exists>rev. body (response (summary utc_zone example_now (mongo example_orders example_users)
        (request_as ''admin'' no_params))) =
       Summary_body \<lparr>totalOrders = 3, totalRevenue = rev, activeUsers = 2\<rparr>
         \<lparr>completed = 1, cancelled = 0, placed = 2, preparing = 0\<rparr>
     \<and> (1::nat) + 2 + 0 \<le> 3"
proof -
  from example_summary obtain rev where
    b: "body (response (summary utc_zone example_now (mongo example_orders example_users)
        (request_as ''admin'' no_params))) =
       Summary_body \<lparr>totalOrders = 3, totalRevenue = rev, activeUsers = 2\<rparr>
         \<lparr>completed = 1, cancelled = 0, placed = 2, preparing = 0\<rparr>"
    by force
  from status_counts_bounded [of utc_zone example_now "mongo example_orders example_users"
      "request_as ''admin'' no_params" _ _ example_orders example_users
      "\<lparr>totalOrders = 3, totalRevenue = rev, activeUsers = 2\<rparr>"
      "\<lparr>completed = 1, cancelled = 0, placed = 2, preparing = 0\<rparr>"] b
  have "(1::nat) + 2 + 0 \<le> 3" by simp
  with b show ?thesis by blast
qed

section \<open>The chart\<close>

lemma ordersChart_admin:
  assumes "user req = Some u" and "role u = Some ''admin''"
  shows "ordersChart tz now Order req =
     try_catch
       (await (AggregateByDay (range_query tz now req))
          (aggregate_by_day Order (range_query tz now req)) (\<lambda>ordersOverTime.
        send 200 (Chart_body
          (map (\<lambda>item. \<lparr>date = row_id item, orders = row_count item,
                          revenue = parseFloat (toFixed2 (row_revenue item))\<rparr>) ordersOverTime))))"
  using assms by (simp add: ordersChart_def range_query_def Let_def)

lemma chart_body:
  assumes "body (response (ordersChart tz now Order req)) = Chart_body cd"
  shows "\<exists>rows. aggregate_by_day Order (range_query tz now req) = Inr rows
          \<and> cd = map (\<lambda>item. \<lparr>date = row_id item, orders = row_count item,
                                revenue = parseFloat (toFixed2 (row_revenue item))\<rparr>) rows"
proof -
  from assms have "\<exists>u. user req = Some u \<and> role u = Some ''admin''"
    unfolding ordersChart_def by (rule guard_body) simp
  then obtain u where adm: "user req = Some u" "role u = Some ''admin''" by blast
  note eq = assms [unfolded ordersChart_admin [OF adm]]
  show ?thesis
  proof (cases "aggregate_by_day Order (range_query tz now req)")
    case (Inl e)
    with eq show ?thesis by (simp add: server_error_def)
  next
    case (Inr rows)
    with eq show ?thesis by (simp add: send_def)
  qed
qed

lemma group_by_day_rows:
  assumes "group_by_day ms = Inr rows"
  shows "(\<forall>d \<in> set ms. dateToString (createdAt d) \<noteq> None)
       \<and> rows = map (\<lambda>k. \<lparr>row_id = k,
                            row_count = length (filter (\<lambda>d. dateToString (createdAt d) = Some k) ms),
                            row_revenue = mongo_sum (map total (filter (\<lambda>d. dateToString (createdAt d) = Some k) ms))\<rparr>)
                    (sort (remdups (map (\<lambda>d. the (dateToString (createdAt d))) ms)))"
  using assms by (auto simp add: group_by_day_def split: if_splits)

lemma day_keys:
  assumes "\<forall>d \<in> set ms. dateToString (createdAt d) \<noteq> None"
  shows "set (map (\<lambda>d. the (dateToString (createdAt d))) ms) =
           {k. \<exists>d \<in> set ms. dateToString (createdAt d) = Some k}"
  using assms by force

text \<open>
  C7. On a store over a fixed collection, the \<^verbatim>\<open>chartData\<close> of a chart response is sorted by
  its date key, has no key twice, has exactly the date keys of the matching documents (one
  point for each day with a matching order, each point counting that day's orders, at least
  one). When no order matches, an admin caller gets status 200 with the empty sequence.
\<close>

theorem chart_one_point_per_day:
  "(body (response (ordersChart tz now (mongo docs users) req)) = Chart_body cd \<longrightarrow>
      (\<exists>ms. matching (range_query tz now req) docs = Inr ms
         \<and> sorted (map date cd) \<and> distinct (map date cd)
         \<and> set (map date cd) = {k. \<exists>d \<in> set ms. dateToString (createdAt d) = Some k}
         \<and> length cd = card {k. \<exists>d \<in> set ms. dateToString (createdAt d) = Some k}
         \<and> (\<forall>p \<in> set cd.
               orders p = length (filter (\<lambda>d. dateToString (createdAt d) = Some (date p)) ms)
             \<and> 1 \<le> orders p)))
   \<and> (user req = Some u \<and> role u = Some ''admin''
        \<and> matching (range_query tz now req) docs = Inr [] \<longrightarrow>
      response (ordersChart tz now (mongo docs users) req) =
        \<lparr>statusCode = 200, body = Chart_body []\<rparr>)"
proof -
  have 1: "body (response (ordersChart tz now (mongo docs users) req)) = Chart_body cd \<longrightarrow>
      (\<exists>ms. matching (range_query tz now req) docs = Inr ms
         \<and> sorted (map date cd) \<and> distinct (map date cd)
         \<and> set (map date cd) = {k. \<exists>d \<in> set ms. dateToString (createdAt d) = Some k}
         \<and> length cd = card {k. \<exists>d \<in> set ms. dateToString (createdAt d) = Some k}
         \<and> (\<forall>p \<in> set cd.
               orders p = length (filter (\<lambda>d. dateToString (createdAt d) = Some (date p)) ms)
             \<and> 1 \<le> orders p))"
  proof
    assume b: "body (response (ordersChart tz now (mongo docs users) req)) = Chart_body cd"
    from chart_body [OF b] obtain rows where
      agg: "aggregate_by_day (mongo docs users) (range_query tz now req) = Inr rows"
      and cd: "cd = map (\<lambda>item. \<lparr>date = row_id item, orders = row_count item,
                                revenue = parseFloat (toFixed2 (row_revenue item))\<rparr>) rows"
      by blast
    from agg obtain ms where ms: "matching (range_query tz now req) docs = Inr ms"
      and g: "group_by_day ms = Inr rows"
      by (cases "matching (range_query tz now req) docs") auto
    define keys where "keys = map (\<lambda>d. the (dateToString (createdAt d))) ms"
    from group_by_day_rows [OF g] have some: "\<forall>d \<in> set ms. dateToString (createdAt d) \<noteq> None"
      and rows: "rows = map (\<lambda>k. \<lparr>row_id = k,
                            row_count = length (filter (\<lambda>d. dateToString (createdAt d) = Some k) ms),
                            row_revenue = mongo_sum (map total (filter (\<lambda>d. dateToString (createdAt d) = Some k) ms))\<rparr>)
                    (sort (remdups keys))"
      by (simp_all add: keys_def)
    have dates: "map date cd = sort (remdups keys)" by (simp add: cd rows comp_def)
    have ks: "set keys = {k. \<exists>d \<in> set ms. dateToString (createdAt d) = Some k}"
      unfolding keys_def by (rule day_keys [OF some])
    have a: "sorted (map date cd)" by (simp add: dates)
    have d: "distinct (map date cd)" by (simp add: dates)
    have s: "set (map date cd) = {k. \<exists>d \<in> set ms. dateToString (createdAt d) = Some k}"
      by (simp only: dates set_sort set_remdups ks)
    have "length (map date cd) = card (set keys)"
      by (simp only: dates length_sort length_remdups_card_conv)
    then have l: "length cd = card {k. \<exists>d \<in> set ms. dateToString (createdAt d) = Some k}"
      by (simp add: ks)
    have p: "\<forall>p \<in> set cd.
               orders p = length (filter (\<lambda>d. dateToString (createdAt d) = Some (date p)) ms)
             \<and> 1 \<le> orders p"
    proof
      fix p assume "p \<in> set cd"
      then obtain k where k: "k \<in> set keys" and dp: "date p = k"
        and op: "orders p = length (filter (\<lambda>d. dateToString (createdAt d) = Some k) ms)"
        by (auto simp add: cd rows)
      from k ks obtain d where "d \<in> set ms" "dateToString (createdAt d) = Some k" by auto
      then have "filter (\<lambda>d. dateToString (createdAt d) = Some k) ms \<noteq> []"
        by (auto simp add: filter_empty_conv)
      then have "1 \<le> length (filter (\<lambda>d. dateToString (createdAt d) = Some k) ms)"
        by (cases "filter (\<lambda>d. dateToString (createdAt d) = Some k) ms") simp_all
      with dp op show "orders p = length (filter (\<lambda>d. dateToString (createdAt d) = Some (date p)) ms)
             \<and> 1 \<le> orders p" by simp
    qed
    from ms a d s l p
    show "\<exists>ms. matching (range_query tz now req) docs = Inr ms
         \<and> sorted (map date cd) \<and> distinct (map date cd)
         \<and> set (map date cd) = {k. \<exists>d \<in> set ms. dateToString (createdAt d) = Some k}
         \<and> length cd = card {k. \<exists>d \<in> set ms. dateToString (createdAt d) = Some k}
         \<and> (\<forall>p \<in> set cd.
               orders p = length (filter (\<lambda>d. dateToString (createdAt d) = Some (date p)) ms)
             \<and> 1 \<le> orders p)"
      by blast
  qed
  have 2: "user req = Some u \<and> role u = Some ''admin''
        \<and> matching (range_query tz now req) docs = Inr [] \<longrightarrow>
      response (ordersChart tz now (mongo docs users) req) =
        \<lparr>statusCode = 200, body = Chart_body []\<rparr>"
    by (auto simp add: ordersChart_admin group_by_day_def send_def)
  from 1 2 show ?thesis by simp
qed


lemma example_days:
  "dateToString 1730600000000 = Some ''2024-11-03''"
  "dateToString 1730500000000 = Some ''2024-11-01''"
  "dateToString 1730610000000 = Some ''2024-11-03''"
  by (simp_all add: dateToString_def Day_def msPerDay_def civil_from_days_def civil_of_era_def
      year_of_era_def civil_of_year_def civil_of_month_def four_digits_def two_digits_def
      digit_char_def)

lemma example_today:
  "getDateRange utc_zone example_now (Some ''today'') = Some 1730592000000"
  by (simp add: getDateRange_def new_Date_def setHours_0_def TimeClip_def UTC_def
      LocalTime_def MakeDate_def Day_def msPerDay_def utc_zone_def example_now_def)

lemma example_chart:
  "\<exists>r1 r2. body (response (ordersChart utc_zone example_now (mongo example_orders example_users)
        (request_as ''admin'' no_params))) =
      Chart_body [\<lparr>date = ''2024-11-01'', orders = 1, revenue = r1\<rparr>,
                  \<lparr>date = ''2024-11-03'', orders = 2, revenue = r2\<rparr>]"
  by (simp add: ordersChart_admin example_range_query example_matching send_def)
     (simp add: example_orders_def group_by_day_def example_days)

theorem chart_one_point_per_day_witness:
  "(\<exists>r1 r2. body (response (ordersChart utc_zone example_now (mongo example_orders example_users)
        (request_as ''admin'' no_params))) =
      Chart_body [\<lparr>date = ''2024-11-01'', orders = 1, revenue = r1\<rparr>,
                  \<lparr>date = ''2024-11-03'', orders = 2, revenue = r2\<rparr>])
   \<and> sorted [''2024-11-01'', ''2024-11-03'']
   \<and> card {k. \<exists>d \<in> set example_orders. dateToString (createdAt d) = Some k} = 2
   \<and> response (ordersChart utc_zone example_now (mongo [] example_users)
        (request_as ''admin'' (no_params\<lparr>q_dateRange := Some ''today''\<rparr>))) =
      \<lparr>statusCode = 200, body = Chart_body []\<rparr>"
proof -
  let ?req = "request_as ''admin'' no_params"
  let ?today = "request_as ''admin'' (no_params\<lparr>q_dateRange := Some ''today''\<rparr>)"
  from example_chart obtain r1 r2 where
    b: "body (response (ordersChart utc_zone example_now (mongo example_orders example_users) ?req)) =
      Chart_body [\<lparr>date = ''2024-11-01'', orders = 1, revenue = r1\<rparr>,
                  \<lparr>date = ''2024-11-03'', orders = 2, revenue = r2\<rparr>]"
    by blast
  have m: "matching (range_query utc_zone example_now ?req) example_orders = Inr example_orders"
    by (simp add: example_range_query example_matching)
  let ?cd = "[\<lparr>date = ''2024-11-01'', orders = 1, revenue = r1\<rparr>,
              \<lparr>date = ''2024-11-03'', orders = 2, revenue = r2\<rparr>]"
  note th = chart_one_point_per_day [of utc_zone example_now example_orders example_users ?req ?cd,
      THEN conjunct1, THEN mp, OF b]
  then obtain ms where ms: "matching (range_query utc_zone example_now ?req) example_orders = Inr ms"
    and s: "sorted (map date ?cd)"
    and l: "length ?cd = card {k. \<exists>d \<in> set ms. dateToString (createdAt d) = Some k}"
    by blast
  from ms m have "ms = example_orders" by simp
  with s l have 1: "sorted [''2024-11-01'', ''2024-11-03'']
     \<and> card {k. \<exists>d \<in> set example_orders. dateToString (createdAt d) = Some k} = 2"
    by simp
  have e: "matching (range_query utc_zone example_now ?today) [] = Inr []"
    by (simp add: range_query_def no_params_def default_to_def matching_def example_today)
  have adm: "user ?today = Some \<lparr>role = Some ''admin''\<rparr>"
    "role \<lparr>role = Some ''admin''\<rparr> = Some ''admin''"
    by simp_all
  note th2 = chart_one_point_per_day [of utc_zone example_now "[]" example_users ?today _
      "\<lparr>role = Some ''admin''\<rparr>", THEN conjunct2, THEN mp]
  have 2: "response (ordersChart utc_zone example_now (mongo [] example_users) ?today) =
      \<lparr>statusCode = 200, body = Chart_body []\<rparr>"
    by (rule th2) (simp only: adm e simp_thms)
  from b 1 2 show ?thesis by blast
qed

section \<open>The date range\<close>

lemma new_Date_TimeClip [simp]: "new_Date (TimeClip t) = TimeClip t"
  by (simp add: new_Date_def TimeClip_def)

lemma MakeDate_shift: "MakeDate (Day t - k) (TimeWithinDay t) = t - k * msPerDay"
proof -
  have "t div msPerDay * msPerDay + t mod msPerDay = t" by simp
  then show ?thesis by (simp add: MakeDate_def Day_def TimeWithinDay_def algebra_simps)
qed

lemma MakeDate_start: "MakeDate (Day t) 0 = t - TimeWithinDay t"
proof -
  have "t div msPerDay * msPerDay + t mod msPerDay = t" by simp
  then show ?thesis by (simp add: MakeDate_def Day_def TimeWithinDay_def algebra_simps)
qed

lemma TimeWithinDay_range: "0 \<le> TimeWithinDay t \<and> TimeWithinDay t < msPerDay"
  by (simp add: TimeWithinDay_def msPerDay_def)

text \<open>
  C5. \<^verbatim>\<open>getDateRange\<close> has no failing case. Any argument other than \<^verbatim>\<open>today\<close> and \<^verbatim>\<open>7days\<close>
  (an absent one included) gives the epoch, time value 0. \<^verbatim>\<open>7days\<close> gives the local time of
  \<open>now\<close> less 7 days, read back as UTC; \<^verbatim>\<open>today\<close> gives the local time of \<open>now\<close> less its time
  within the local day, read back as UTC. On a host with a constant offset \<open>c\<close> from UTC
  and a clock not within 8 days of the ends of the time range, \<^verbatim>\<open>7days\<close> is \<open>now\<close> less
  \<open>7 * 86400000\<close> ms, and \<^verbatim>\<open>today\<close> is the instant \<open>start\<close> with \<open>start \<le> now < start + 1 day\<close>
  whose local time is a multiple of a day.
\<close>

theorem getDateRange_resolves:
  "(rng \<noteq> Some ''today'' \<and> rng \<noteq> Some ''7days'' \<longrightarrow> getDateRange tz now rng = Some 0)
   \<and> getDateRange tz now (Some ''7days'') = TimeClip (UTC tz (LocalTime tz now - 7 * msPerDay))
   \<and> getDateRange tz now (Some ''today'') =
       TimeClip (UTC tz (LocalTime tz now - TimeWithinDay (LocalTime tz now)))
   \<and> (offset_at_utc tz = (\<lambda>t. c) \<and> offset_at_local tz = (\<lambda>t. c)
        \<and> \<bar>now\<bar> \<le> 8640000000000000 - 8 * msPerDay \<longrightarrow>
        getDateRange tz now (Some ''7days'') = Some (now - 7 * msPerDay)
      \<and> (\<exists>start. getDateRange tz now (Some ''today'') = Some start
             \<and> start \<le> now \<and> now < start + msPerDay
             \<and> (start + c) mod msPerDay = 0))"
proof -
  have 1: "rng \<noteq> Some ''today'' \<and> rng \<noteq> Some ''7days'' \<longrightarrow> getDateRange tz now rng = Some 0"
    by (simp add: getDateRange_def new_Date_def TimeClip_def)
  have 2: "getDateRange tz now (Some ''7days'') = TimeClip (UTC tz (LocalTime tz now - 7 * msPerDay))"
    by (simp add: getDateRange_def setDate_getDate_minus_def MakeDate_shift)
  have 3: "getDateRange tz now (Some ''today'') =
       TimeClip (UTC tz (LocalTime tz now - TimeWithinDay (LocalTime tz now)))"
    by (simp add: getDateRange_def setHours_0_def MakeDate_start)
  have 4: "offset_at_utc tz = (\<lambda>t. c) \<and> offset_at_local tz = (\<lambda>t. c)
        \<and> \<bar>now\<bar> \<le> 8640000000000000 - 8 * msPerDay \<longrightarrow>
        getDateRange tz now (Some ''7days'') = Some (now - 7 * msPerDay)
      \<and> (\<exists>start. getDateRange tz now (Some ''today'') = Some start
             \<and> start \<le> now \<and> now < start + msPerDay
             \<and> (start + c) mod msPerDay = 0)"
  proof (intro impI, elim conjE)
    assume u: "offset_at_utc tz = (\<lambda>t. c)" and l: "offset_at_local tz = (\<lambda>t. c)"
      and n: "\<bar>now\<bar> \<le> 8640000000000000 - 8 * msPerDay"
    have lt: "LocalTime tz now = now + c" by (simp only: LocalTime_def u)
    have ut: "\<And>t. UTC tz t = t - c" by (simp only: UTC_def l)
    have bound: "8 * msPerDay \<le> 8640000000000000" "0 < msPerDay" by (simp_all add: msPerDay_def)
    have "\<bar>now - 7 * msPerDay\<bar> \<le> 8640000000000000" using n bound by linarith
    then have "TimeClip (now - 7 * msPerDay) = Some (now - 7 * msPerDay)"
      by (simp only: TimeClip_def if_True)
    moreover have "UTC tz (LocalTime tz now - 7 * msPerDay) = now - 7 * msPerDay"
      unfolding lt ut by linarith
    ultimately have seven: "getDateRange tz now (Some ''7days'') = Some (now - 7 * msPerDay)"
      by (simp only: 2)
    define w where "w = TimeWithinDay (now + c)"
    have w: "0 \<le> w" "w < msPerDay" using TimeWithinDay_range [of "now + c"] by (simp_all only: w_def)
    have "UTC tz (LocalTime tz now - TimeWithinDay (LocalTime tz now)) = now - w"
      unfolding lt ut w_def by linarith
    moreover have "\<bar>now - w\<bar> \<le> 8640000000000000" using n bound w by linarith
    then have "TimeClip (now - w) = Some (now - w)" by (simp only: TimeClip_def if_True)
    ultimately have today: "getDateRange tz now (Some ''today'') = Some (now - w)"
      by (simp only: 3)
    have "(now + c) - (now + c) mod msPerDay = (now + c) div msPerDay * msPerDay"
      by (rule minus_mod_eq_div_mult)
    then have "now - w + c = (now + c) div msPerDay * msPerDay"
      unfolding w_def TimeWithinDay_def by linarith
    then have m: "(now - w + c) mod msPerDay = 0" by (simp only: mod_mult_self2_is_0)
    have a1: "now - w \<le> now" using w by linarith
    have a2: "now < now - w + msPerDay" using w by linarith
    from today a1 a2 m
    have ex: "\<exists>start. getDateRange tz now (Some ''today'') = Some start
             \<and> start \<le> now \<and> now < start + msPerDay
             \<and> (start + c) mod msPerDay = 0"
      by (intro exI [of _ "now - w"] conjI)
    from seven ex show "getDateRange tz now (Some ''7days'') = Some (now - 7 * msPerDay)
      \<and> (\<exists>start. getDateRange tz now (Some ''today'') = Some start
             \<and> start \<le> now \<and> now < start + msPerDay
             \<and> (start + c) mod msPerDay = 0)"
      by (intro conjI)
  qed
  from 1 2 3 4 show ?thesis by (intro conjI)
qed

theorem getDateRange_resolves_witness:
  "getDateRange utc_zone example_now None = Some 0
   \<and> getDateRange utc_zone example_now (Some ''30days'') = Some 0
   \<and> getDateRange utc_zone example_now (Some ''7days'') = Some 1730023200000
   \<and> (\<exists>start. getDateRange utc_zone example_now (Some ''today'') = Some start
         \<and> start \<le> example_now \<and> example_now < start + msPerDay
         \<and> (start + 0) mod msPerDay = 0)"
proof -
  have a: "getDateRange utc_zone example_now None = Some 0"
    by (rule getDateRange_resolves [of None utc_zone example_now 0, THEN conjunct1, THEN mp]) simp
  have b: "getDateRange utc_zone example_now (Some ''30days'') = Some 0"
    by (rule getDateRange_resolves [of "Some ''30days''" utc_zone example_now 0, THEN conjunct1, THEN mp])
       simp
  have z: "offset_at_utc utc_zone = (\<lambda>t. 0) \<and> offset_at_local utc_zone = (\<lambda>t. 0)
        \<and> \<bar>example_now\<bar> \<le> 8640000000000000 - 8 * msPerDay"
    by (simp add: utc_zone_def example_now_def msPerDay_def)
  note th = getDateRange_resolves [of None utc_zone example_now 0,
      THEN conjunct2, THEN conjunct2, THEN conjunct2, THEN mp, OF z]
  from th have c: "getDateRange utc_zone example_now (Some ''7days'') = Some (example_now - 7 * msPerDay)"
    by (rule conjunct1)
  from th have d: "\<exists>start. getDateRange utc_zone example_now (Some ''today'') = Some start
         \<and> start \<le> example_now \<and> example_now < start + msPerDay
         \<and> (start + 0) mod msPerDay = 0"
    by (rule conjunct2)
  have "example_now - 7 * msPerDay = 1730023200000" by (simp add: example_now_def msPerDay_def)
  with c have c': "getDateRange utc_zone example_now (Some ''7days'') = Some 1730023200000"
    by simp
  from a b c' d show ?thesis by (intro conjI)
qed

section \<open>Revenue\<close>

lemma pow2_nonzero [simp]: "pow2 e \<noteq> 0"
  using pow2_pos [of e] by linarith

lemma fl_eval:
  assumes "pow2 e \<le> \<bar>q\<bar>" and "\<bar>q\<bar> < pow2 (e + 1)" and "- 1022 \<le> e"
    and "rne (q / pow2 (e - 52)) = m" and "m \<noteq> 0"
    and "\<bar>of_int m * pow2 (e - 52)\<bar> < pow2 1024"
  shows "fl q = Fin (of_int m * pow2 (e - 52))"
proof -
  have e: "expo q = e" by (rule expo_unique [OF assms(1,2)])
  have q: "q \<noteq> 0"
  proof
    assume "q = 0"
    with assms(1) have "pow2 e \<le> 0" by simp
    with pow2_pos [of e] show False by linarith
  qed
  have mx: "max e (- 1022) = e" using assms(3) by simp
  have nz: "of_int m * pow2 (e - 52) \<noteq> 0" using assms(5) by simp
  show ?thesis
    using q nz assms(6) by (simp add: fl_def Let_def e mx assms(4))
qed

lemma rne_eval:
  assumes "of_int m - 1 / 2 < r" and "r < of_int m + 1 / 2"
  shows "rne r = m"
proof -
  have "m \<le> rne r"
  proof (cases "of_int m \<le> r")
    case True
    then show ?thesis by (rule rne_lower)
  next
    case False
    then have "of_int (m - 1) + 1 / 2 < r" using assms(1) by simp
    then have "m - 1 < rne r" by (rule rne_gt)
    then show ?thesis by simp
  qed
  moreover have "rne r \<le> m"
  proof (cases "r \<le> of_int m")
    case True
    then show ?thesis by (rule rne_upper)
  next
    case False
    then have f: "\<lfloor>r\<rfloor> = m" using assms(2) by (intro floor_unique) simp_all
    then have "r - of_int \<lfloor>r\<rfloor> < 1 / 2" using assms(2) by simp
    then show ?thesis using f by (simp add: rne_def Let_def)
  qed
  ultimately show ?thesis by simp
qed

lemma fl_10005: "fl (10005 / 1000) = Fin (5632314283980227 / 562949953421312)"
proof -
  have r: "rne (10005 / 1000 / pow2 (3 - 52)) = 5632314283980227"
    by (rule rne_eval) (simp_all add: pow2_def)
  have "fl (10005 / 1000) = Fin (of_int 5632314283980227 * pow2 (3 - 52))"
    by (rule fl_eval [OF _ _ _ r]) (simp_all add: pow2_def)
  then show ?thesis by (simp add: pow2_def)
qed

lemma fl_A: "fl (5632314283980227 / 562949953421312) = Fin (5632314283980227 / 562949953421312)"
proof -
  have e: "expo (5632314283980227 / 562949953421312) = 3"
    by (rule expo_unique) (simp_all add: pow2_def)
  show ?thesis
    by (rule fl_exact [where k = 5632314283980227]) (simp_all add: e pow2_def)
qed

lemma fl_S: "fl (8447064051086787 / 562949953421312) = Fin (8447064051086787 / 562949953421312)"
proof -
  have e: "expo (8447064051086787 / 562949953421312) = 3"
    by (rule expo_unique) (simp_all add: pow2_def)
  show ?thesis
    by (rule fl_exact [where k = 8447064051086787]) (simp_all add: e pow2_def)
qed

lemma fl_5: "fl 5 = Fin 5"
  using fl_int [of 5] by simp


lemma round_to_2:
  assumes "\<bar>x\<bar> < 10 ^ 21"
  shows "num_val (parseFloat (toFixed2 (Fin x))) = num_val (fl (round2 x))"
proof -
  define n where "n = \<lfloor>\<bar>x\<bar> * 100 + 1 / 2\<rfloor>"
  have t: "toFixed2 (Fin x) = Fixed_Dec (x < 0) n"
    using assms by (simp add: Let_def n_def)
  show ?thesis
  proof (cases "n = 0")
    case True
    then have "round2 x = 0" by (simp add: round2_def n_def)
    then show ?thesis unfolding t using True by (simp add: signed_zero_def fl_def)
  next
    case False
    have "\<lfloor>(1 :: rat) / 2\<rfloor> = 0" by (rule floor_unique) simp_all
    then have "x \<noteq> 0" using False by (auto simp add: n_def)
    then have "(if x < 0 then - 1 else 1) * of_int n / 100 = round2 x"
      by (simp add: round2_def n_def sgn_if)
    then show ?thesis unfolding t using False by simp
  qed
qed

lemma round2_close: "\<bar>round2 x - x\<bar> \<le> 1 / 200"
proof -
  define a where "a = \<bar>x\<bar> * 100 + 1 / 2"
  have f: "of_int \<lfloor>a\<rfloor> \<le> a" "a < of_int \<lfloor>a\<rfloor> + 1" by linarith+
  then have "- (1 / 200) \<le> of_int \<lfloor>a\<rfloor> / 100 - \<bar>x\<bar>" "of_int \<lfloor>a\<rfloor> / 100 - \<bar>x\<bar> \<le> 1 / 200"
    unfolding a_def by linarith+
  then have "\<bar>of_int \<lfloor>a\<rfloor> / 100 - \<bar>x\<bar>\<bar> \<le> 1 / 200" by linarith
  moreover have "round2 x - x = sgn x * (of_int \<lfloor>a\<rfloor> / 100 - \<bar>x\<bar>)"
    by (simp add: round2_def a_def algebra_simps sgn_if)
  ultimately show ?thesis by (simp add: abs_mult abs_sgn_eq)
qed

lemma round2_hundredths: "\<exists>n. round2 x = of_int n / 100"
proof -
  have "round2 x = of_int ((if x < 0 then - 1 else if x = 0 then 0 else 1) * \<lfloor>\<bar>x\<bar> * 100 + 1 / 2\<rfloor>) / 100"
    by (simp add: round2_def sgn_if)
  then show ?thesis by blast
qed

lemma three_perm:
  assumes "length xs = 3" and "set xs = {a, b, c}" and "a \<noteq> b" and "a \<noteq> c" and "b \<noteq> c"
  shows "xs = [a, b, c] \<or> xs = [a, c, b] \<or> xs = [b, a, c]
       \<or> xs = [b, c, a] \<or> xs = [c, a, b] \<or> xs = [c, b, a]"
proof -
  from assms(1) obtain x y z where xs: "xs = [x, y, z]"
    by (cases xs; cases "tl xs"; cases "tl (tl xs)") auto
  have "card (set xs) = 3" using assms(2-5) by simp
  then have d: "distinct xs" using assms(1) by (simp add: card_distinct)
  from assms(2) have m: "x \<in> {a, b, c}" "y \<in> {a, b, c}" "z \<in> {a, b, c}" by (auto simp add: xs)
  from d have ne: "x \<noteq> y" "x \<noteq> z" "y \<noteq> z" by (simp_all add: xs)
  from m ne show ?thesis unfolding xs by auto
qed

lemma example_sum:
  assumes "length ts = 3" and "set ts = {fl (10005 / 1000), Fin 5, Fin 0}"
  shows "mongo_sum ts = Fin (8447064051086787 / 562949953421312)"
proof -
  let ?A = "Fin (5632314283980227 / 562949953421312)"
  from assms(2) have s: "set ts = {?A, Fin 5, Fin 0}" by (simp only: fl_10005)
  from three_perm [OF assms(1) s]
  have "ts = [?A, Fin 5, Fin 0] \<or> ts = [?A, Fin 0, Fin 5] \<or> ts = [Fin 5, ?A, Fin 0]
      \<or> ts = [Fin 5, Fin 0, ?A] \<or> ts = [Fin 0, ?A, Fin 5] \<or> ts = [Fin 0, Fin 5, ?A]"
    by simp
  then show ?thesis
    by (elim disjE) (simp_all add: mongo_sum_def fl_A fl_S fl_5)
qed

lemma example_rounded:
  "parseFloat (toFixed2 (Fin (8447064051086787 / 562949953421312))) = fl (1501 / 100)"
proof -
  have "\<lfloor>(8447064051086787 / 562949953421312 :: rat) * 100 + 1 / 2\<rfloor> = 1501"
    by (rule floor_unique) simp_all
  then show ?thesis by (simp add: Let_def)
qed


lemma big_number_is_int:
  assumes "fl x = Fin x" and "10 ^ 21 \<le> \<bar>x\<bar>"
  shows "\<exists>k. x = of_int k"
proof -
  have big: "pow2 69 \<le> \<bar>x\<bar>" using assms(2) by (simp add: pow2_def)
  have x0: "x \<noteq> 0" using assms(2) by auto
  from expo_bounds [OF x0] have hi: "\<bar>x\<bar> < pow2 (expo x + 1)" by simp
  have e: "69 \<le> expo x"
  proof (rule ccontr)
    assume "\<not> 69 \<le> expo x"
    then have "pow2 (expo x + 1) \<le> pow2 69" by (intro pow2_mono) simp
    with hi big show False by linarith
  qed
  then have mx: "max (expo x) (- 1022) = expo x" by simp
  have u: "pow2 (expo x - 52) = of_int (2 ^ nat (expo x - 52))" using e by (simp add: pow2_nat)
  from fl_Fin_form [OF assms(1) x0]
  have "x = of_int (rne (x / pow2 (expo x - 52)) * 2 ^ nat (expo x - 52))"
    by (simp only: mx u of_int_mult)
  then show ?thesis by blast
qed

lemma round2_of_int: "round2 (of_int k) = of_int k"
proof -
  have "\<lfloor>(of_int (\<bar>k\<bar> * 100) :: rat) + 1 / 2\<rfloor> = \<bar>k\<bar> * 100"
    by (rule floor_unique) simp_all
  then have "\<lfloor>\<bar>of_int k :: rat\<bar> * 100 + 1 / 2\<rfloor> = \<bar>k\<bar> * 100" by simp
  then show ?thesis by (simp add: round2_def sgn_if)
qed

lemma round_to_2_number:
  assumes "fl x = Fin x"
  shows "num_val (parseFloat (toFixed2 (Fin x))) = num_val (fl (round2 x))"
proof (cases "\<bar>x\<bar> < 10 ^ 21")
  case True
  then show ?thesis by (rule round_to_2)
next
  case False
  then have big: "10 ^ 21 \<le> \<bar>x\<bar>" by simp
  from big_number_is_int [OF assms big] obtain k where k: "x = of_int k" by blast
  have r: "round2 x = x" by (simp only: k round2_of_int)
  have "(if x < 0 then - \<bar>x\<bar> else \<bar>x\<bar>) = x" by simp
  then have "parseFloat (toFixed2 (Fin x)) = fl x" using big by (simp add: Let_def)
  then show ?thesis by (simp only: r)
qed

lemma round_zero: "parseFloat (toFixed2 (Fin 0)) = Fin 0"
proof -
  have "\<lfloor>(1 :: rat) / 2\<rfloor> = 0" by (rule floor_unique) simp_all
  then show ?thesis by (simp add: Let_def signed_zero_def)
qed

lemma toFixed2_other:
  "parseFloat (toFixed2 NaN) = NaN" "parseFloat (toFixed2 PInf) = PInf"
  "parseFloat (toFixed2 NInf) = NInf" "parseFloat (toFixed2 NegZero) = Fin 0"
  by (simp_all add: signed_inf_def signed_zero_def)

lemma summary_mongo:
  assumes "user req = Some u" and "role u = Some ''admin''"
    and "matching (range_query tz now req) docs = Inr ms"
  shows "response (summary tz now (mongo docs users) req) =
     \<lparr>statusCode = 200,
      body = Summary_body
        \<lparr>totalOrders = length ms,
         totalRevenue = parseFloat (toFixed2 (case group_total ms of [] \<Rightarrow> Fin 0 | r # _ \<Rightarrow> r)),
         activeUsers = length (remdups (map user_id ms))\<rparr>
        \<lparr>completed = status_count ''Delivered'' (group_by_status ms), cancelled = 0,
         placed = status_count ''Placed'' (group_by_status ms),
         preparing = status_count ''Preparing'' (group_by_status ms)\<rparr>\<rparr>"
  by (simp add: summary_admin [OF assms(1,2)] assms(3) send_def)

text \<open>
  C2. In a summary response \<^verbatim>\<open>totalRevenue\<close> is the Number nearest to the store's sum rounded
  to two decimal places (a tie away from zero), whatever finite Number the sum is; it is 0
  when the store returns no row, and a sum that is NaN or infinite is passed on. The same
  holds for the revenue of each chart point. The rounding moves the sum by at most \<open>0.005\<close>,
  onto a multiple of \<open>0.01\<close>. On a store over a fixed collection where exactly three orders
  match, with totals 10.005, 5 and 0 (as Numbers, in any order), an admin caller gets
  \<^verbatim>\<open>totalOrders\<close> 3, \<^verbatim>\<open>totalRevenue\<close> the Number 15.01 and \<^verbatim>\<open>activeUsers\<close> the number of
  distinct users of the three orders.
\<close>

theorem revenue_rounded_to_2_places:
  "(body (response (summary tz now Order req)) = Summary_body s os
      \<and> aggregate_total Order (range_query tz now req) = Inr (Fin x # rest)
      \<and> fl x = Fin x \<longrightarrow>
        num_val (totalRevenue s) = num_val (fl (round2 x)))
   \<and> (body (response (summary tz now Order req)) = Summary_body s os
      \<and> aggregate_total Order (range_query tz now req) = Inr (y # rest)
      \<and> (y = NaN \<or> y = PInf \<or> y = NInf) \<longrightarrow>
        totalRevenue s = y)
   \<and> (body (response (summary tz now Order req)) = Summary_body s os
      \<and> (aggregate_total Order (range_query tz now req) = Inr []
         \<or> aggregate_total Order (range_query tz now req) = Inr (NegZero # rest)) \<longrightarrow>
        totalRevenue s = Fin 0)
   \<and> (body (response (ordersChart tz now Order req)) = Chart_body cd
      \<and> aggregate_by_day Order (range_query tz now req) = Inr rows
      \<and> i < length rows \<and> row_revenue (rows ! i) = Fin x \<and> fl x = Fin x \<longrightarrow>
        num_val (revenue (cd ! i)) = num_val (fl (round2 x)))
   \<and> \<bar>round2 x - x\<bar> \<le> 1 / 200
   \<and> (\<exists>n. round2 x = of_int n / 100)
   \<and> (user req = Some u \<and> role u = Some ''admin''
      \<and> matching (range_query tz now req) docs = Inr ms
      \<and> length ms = 3 \<and> set (map total ms) = {fl (10005 / 1000), Fin 5, Fin 0} \<longrightarrow>
        (\<exists>os'. response (summary tz now (mongo docs users) req) =
           \<lparr>statusCode = 200,
            body = Summary_body
              \<lparr>totalOrders = 3, totalRevenue = fl (1501 / 100),
               activeUsers = card (user_id ` set ms)\<rparr> os'\<rparr>))"
proof -
  have 1: "body (response (summary tz now Order req)) = Summary_body s os
      \<and> aggregate_total Order (range_query tz now req) = Inr (Fin x # rest)
      \<and> fl x = Fin x \<longrightarrow>
        num_val (totalRevenue s) = num_val (fl (round2 x))"
  proof (intro impI, elim conjE)
    assume b: "body (response (summary tz now Order req)) = Summary_body s os"
      and a: "aggregate_total Order (range_query tz now req) = Inr (Fin x # rest)"
      and x: "fl x = Fin x"
    from summary_body [OF b] a have "totalRevenue s = parseFloat (toFixed2 (Fin x))" by auto
    then show "num_val (totalRevenue s) = num_val (fl (round2 x))"
      by (simp only: round_to_2_number [OF x])
  qed
  have 2: "body (response (summary tz now Order req)) = Summary_body s os
      \<and> aggregate_total Order (range_query tz now req) = Inr (y # rest)
      \<and> (y = NaN \<or> y = PInf \<or> y = NInf) \<longrightarrow>
        totalRevenue s = y"
  proof (intro impI, elim conjE)
    assume b: "body (response (summary tz now Order req)) = Summary_body s os"
      and a: "aggregate_total Order (range_query tz now req) = Inr (y # rest)"
      and y: "y = NaN \<or> y = PInf \<or> y = NInf"
    from summary_body [OF b] a have "totalRevenue s = parseFloat (toFixed2 y)" by auto
    with y show "totalRevenue s = y" by (auto simp add: signed_inf_def)
  qed
  have 3: "body (response (summary tz now Order req)) = Summary_body s os
      \<and> (aggregate_total Order (range_query tz now req) = Inr []
         \<or> aggregate_total Order (range_query tz now req) = Inr (NegZero # rest)) \<longrightarrow>
        totalRevenue s = Fin 0"
  proof (intro impI, elim conjE)
    assume b: "body (response (summary tz now Order req)) = Summary_body s os"
      and a: "aggregate_total Order (range_query tz now req) = Inr []
         \<or> aggregate_total Order (range_query tz now req) = Inr (NegZero # rest)"
    from summary_body [OF b] a
    have "totalRevenue s = parseFloat (toFixed2 (Fin 0)) \<or> totalRevenue s = parseFloat (toFixed2 NegZero)"
      by auto
    then show "totalRevenue s = Fin 0" by (auto simp only: round_zero toFixed2_other)
  qed
  have 4: "body (response (ordersChart tz now Order req)) = Chart_body cd
      \<and> aggregate_by_day Order (range_query tz now req) = Inr rows
      \<and> i < length rows \<and> row_revenue (rows ! i) = Fin x \<and> fl x = Fin x \<longrightarrow>
        num_val (revenue (cd ! i)) = num_val (fl (round2 x))"
  proof (intro impI, elim conjE)
    assume b: "body (response (ordersChart tz now Order req)) = Chart_body cd"
      and a: "aggregate_by_day Order (range_query tz now req) = Inr rows"
      and i: "i < length rows" and r: "row_revenue (rows ! i) = Fin x" and x: "fl x = Fin x"
    from chart_body [OF b] a i r have "revenue (cd ! i) = parseFloat (toFixed2 (Fin x))" by auto
    then show "num_val (revenue (cd ! i)) = num_val (fl (round2 x))"
      by (simp only: round_to_2_number [OF x])
  qed
  have 5: "user req = Some u \<and> role u = Some ''admin''
      \<and> matching (range_query tz now req) docs = Inr ms
      \<and> length ms = 3 \<and> set (map total ms) = {fl (10005 / 1000), Fin 5, Fin 0} \<longrightarrow>
        (\<exists>os'. response (summary tz now (mongo docs users) req) =
           \<lparr>statusCode = 200,
            body = Summary_body
              \<lparr>totalOrders = 3, totalRevenue = fl (1501 / 100),
               activeUsers = card (user_id ` set ms)\<rparr> os'\<rparr>)"
  proof (intro impI, elim conjE)
    assume adm: "user req = Some u" "role u = Some ''admin''"
      and m: "matching (range_query tz now req) docs = Inr ms"
      and l: "length ms = 3" and t: "set (map total ms) = {fl (10005 / 1000), Fin 5, Fin 0}"
    have ne: "ms \<noteq> []" using l by auto
    have sum: "mongo_sum (map total ms) = Fin (8447064051086787 / 562949953421312)"
    proof (rule example_sum)
      show "length (map total ms) = 3" using l by simp
      show "set (map total ms) = {fl (10005 / 1000), Fin 5, Fin 0}" by (rule t)
    qed
    have g: "(case group_total ms of [] \<Rightarrow> Fin 0 | r # _ \<Rightarrow> r) =
        Fin (8447064051086787 / 562949953421312)"
      using ne by (simp add: group_total_def sum)
    have au: "length (remdups (map user_id ms)) = card (user_id ` set ms)"
      by (simp add: length_remdups_card_conv)
    show "\<exists>os'. response (summary tz now (mongo docs users) req) =
           \<lparr>statusCode = 200,
            body = Summary_body
              \<lparr>totalOrders = 3, totalRevenue = fl (1501 / 100),
               activeUsers = card (user_id ` set ms)\<rparr> os'\<rparr>"
      unfolding summary_mongo [OF adm m] g example_rounded au l by blast
  qed
  from 1 2 3 4 round2_close [of x] round2_hundredths [of x] 5 show ?thesis by (intro conjI)
qed


lemma example_totals:
  "length example_orders = 3"
  "set (map total example_orders) = {fl (10005 / 1000), Fin 5, Fin 0}"
  "card (user_id ` set example_orders) = 2"
  by (simp_all add: example_orders_def)

lemma example_rows:
  "\<exists>rows. aggregate_by_day (mongo example_orders example_users)
        (range_query utc_zone example_now (request_as ''admin'' no_params)) = Inr rows
     \<and> 0 < length rows \<and> row_revenue (rows ! 0) = Fin 5"
  by (simp add: example_range_query example_matching)
     (simp add: example_orders_def group_by_day_def example_days mongo_sum_def fl_5)

theorem revenue_rounded_to_2_places_witness:
  "(\<exists>os'. response (summary utc_zone example_now (mongo example_orders example_users)
        (request_as ''admin'' no_params)) =
      \<lparr>statusCode = 200,
       body = Summary_body
         \<lparr>totalOrders = 3, totalRevenue = fl (1501 / 100), activeUsers = 2\<rparr> os'\<rparr>)
   \<and> num_val (fl (1501 / 100)) =
       num_val (fl (round2 (8447064051086787 / 562949953421312)))
   \<and> (\<exists>cd. body (response (ordersChart utc_zone example_now (mongo example_orders example_users)
        (request_as ''admin'' no_params))) = Chart_body cd
        \<and> num_val (revenue (cd ! 0)) = num_val (fl (round2 5)))"
proof -
  let ?req = "request_as ''admin'' no_params"
  let ?db = "mongo example_orders example_users"
  let ?u = "\<lparr>role = Some ''admin''\<rparr>"
  let ?S = "8447064051086787 / 562949953421312 :: rat"
  have m: "matching (range_query utc_zone example_now ?req) example_orders = Inr example_orders"
    by (simp add: example_range_query example_matching)
  have hyp: "user ?req = Some ?u \<and> role ?u = Some ''admin''
      \<and> matching (range_query utc_zone example_now ?req) example_orders = Inr example_orders
      \<and> length example_orders = 3
      \<and> set (map total example_orders) = {fl (10005 / 1000), Fin 5, Fin 0}"
    using m example_totals(1,2) by simp
  note th = revenue_rounded_to_2_places [where tz = utc_zone and now = example_now and req = ?req
      and docs = example_orders and users = example_users and u = ?u and ms = example_orders]
  from th [THEN conjunct2, THEN conjunct2, THEN conjunct2, THEN conjunct2, THEN conjunct2,
      THEN conjunct2, THEN mp, OF hyp]
  obtain os' where r: "response (summary utc_zone example_now ?db ?req) =
      \<lparr>statusCode = 200,
       body = Summary_body
         \<lparr>totalOrders = 3, totalRevenue = fl (1501 / 100),
          activeUsers = card (user_id ` set example_orders)\<rparr> os'\<rparr>"
    by blast
  then have 1: "\<exists>os'. response (summary utc_zone example_now ?db ?req) =
      \<lparr>statusCode = 200,
       body = Summary_body
         \<lparr>totalOrders = 3, totalRevenue = fl (1501 / 100), activeUsers = 2\<rparr> os'\<rparr>"
    by (simp add: example_totals(3))
  from r have b: "body (response (summary utc_zone example_now ?db ?req)) =
      Summary_body \<lparr>totalOrders = 3, totalRevenue = fl (1501 / 100),
          activeUsers = card (user_id ` set example_orders)\<rparr> os'"
    by simp
  have agg: "aggregate_total ?db (range_query utc_zone example_now ?req) = Inr (Fin ?S # [])"
  proof -
    have sum: "mongo_sum (map total example_orders) = Fin ?S"
    proof (rule example_sum)
      show "length (map total example_orders) = 3" by (simp add: example_totals(1))
      show "set (map total example_orders) = {fl (10005 / 1000), Fin 5, Fin 0}"
        by (rule example_totals(2))
    qed
    have ne: "example_orders \<noteq> []" using example_totals(1) by auto
    show ?thesis by (simp add: m group_total_def ne sum)
  qed
  from th [where Order = ?db and x = ?S and rest = "[]", THEN conjunct1, THEN mp, OF conjI [OF b conjI [OF agg fl_S]]]
  have 2: "num_val (fl (1501 / 100)) = num_val (fl (round2 ?S))" by simp
  from example_chart obtain r1 r2 where
    c: "body (response (ordersChart utc_zone example_now ?db ?req)) =
      Chart_body [\<lparr>date = ''2024-11-01'', orders = 1, revenue = r1\<rparr>,
                  \<lparr>date = ''2024-11-03'', orders = 2, revenue = r2\<rparr>]"
    by blast
  from example_rows obtain rows where
    rows: "aggregate_by_day ?db (range_query utc_zone example_now ?req) = Inr rows"
    and i: "0 < length rows" and rv: "row_revenue (rows ! 0) = Fin 5"
    by blast
  from th [where Order = ?db and x = 5 and i = 0 and rows = rows,
      THEN conjunct2, THEN conjunct2, THEN conjunct2, THEN conjunct1, THEN mp,
      OF conjI [OF c conjI [OF rows conjI [OF i conjI [OF rv fl_5]]]]]
  have "num_val (revenue ([\<lparr>date = ''2024-11-01'', orders = 1, revenue = r1\<rparr>,
                  \<lparr>date = ''2024-11-03'', orders = 2, revenue = r2\<rparr>] ! 0)) = num_val (fl (round2 5))" .
  with c have 3: "\<exists>cd. body (response (ordersChart utc_zone example_now ?db ?req)) = Chart_body cd
        \<and> num_val (revenue (cd ! 0)) = num_val (fl (round2 5))"
    by blast
  from 1 2 3 show ?thesis by (intro conjI)
qed

end
